theory Spec2Isabelle
  imports Complex_Main "HOL-Library.Multiset"
begin

section \<open>Anchor utilities of the deformable-object simulation (anchor\_utils.py)\<close>

text \<open>
  The module works on NumPy arrays of floating-point coordinates and drives a PyBullet
  simulator. Coordinates are modelled as real numbers; the one floating-point value the
  module can produce that has no real counterpart, the not-a-number vector that
  \<^verbatim>\<open>mean(axis=0)\<close> returns for an empty selection, is a value of its own
  (\<open>NotANumber\<close>). Every exception the module can let through is a value of \<open>error\<close>.
\<close>

subsection \<open>Module constants\<close>

type_synonym vec3 = "real \<times> real \<times> real"
type_synonym rgba = "real \<times> real \<times> real \<times> real"

definition ANCHOR_MASS :: real where "ANCHOR_MASS = 1 / 10"
definition ANCHOR_RADIUS :: real where "ANCHOR_RADIUS = 7 / 1000"
definition ANCHOR_RGBA_ACTIVE :: rgba where "ANCHOR_RGBA_ACTIVE = (1, 0, 1, 1)"
definition ANCHOR_RGBA_INACTIVE :: rgba where "ANCHOR_RGBA_INACTIVE = (1 / 2, 1 / 2, 1 / 2, 1)"
definition ANCHOR_RGBA_PEACH :: rgba where "ANCHOR_RGBA_PEACH = (9 / 10, 3 / 4, 13 / 20, 1)"
definition CTRL_MAX_FORCE :: real where "CTRL_MAX_FORCE = 10"
definition CTRL_PD_KD :: real where "CTRL_PD_KD = 50"

subsection \<open>Errors and array helpers\<close>

datatype error = ValueError | IndexError | SimError

datatype position = Finite vec3 | NotANumber

text \<open>Row-wise \<^verbatim>\<open>mesh - init_pos\<close> and \<^verbatim>\<open>np.linalg.norm(..., axis=1)\<close>.\<close>

fun sub3 :: "vec3 \<Rightarrow> vec3 \<Rightarrow> vec3" where
  "sub3 (x, y, z) (a, b, c) = (x - a, y - b, z - c)"

fun norm3 :: "vec3 \<Rightarrow> real" where
  "norm3 (x, y, z) = sqrt (x * x + y * y + z * z)"

text \<open>
  \<^verbatim>\<open>a[idx]\<close> for an integer index array: the selected rows in the order of \<open>idx\<close>;
  NumPy raises IndexError when an index is out of bounds.
\<close>

definition index_array :: "'a list \<Rightarrow> nat list \<Rightarrow> error + 'a list" where
  "index_array a idx =
     (if \<forall>i \<in> set idx. i < length a then Inr (map (\<lambda>i. a ! i) idx) else Inl IndexError)"

text \<open>
  \<^verbatim>\<open>rows.mean(axis=0)\<close> on an array of shape (n, 3): the component-wise sum divided by
  n. For n = 0 NumPy warns and returns not-a-number in every component; it does not raise.
\<close>

definition mean_axis0 :: "vec3 list \<Rightarrow> position" where
  "mean_axis0 rows =
     (if rows = [] then NotANumber
      else Finite (sum_list (map fst rows) / real (length rows),
                   sum_list (map (\<lambda>r. fst (snd r)) rows) / real (length rows),
                   sum_list (map (\<lambda>r. snd (snd r)) rows) / real (length rows)))"

subsection \<open>np.argpartition\<close>

text \<open>
  \<^verbatim>\<open>np.argpartition(a, kth)\<close> is a library call whose result is fixed only up to the
  order inside the two parts. Its contract: for a non-empty array a \<open>kth\<close> outside
  \<open>0 \<le> kth < len(a)\<close> raises ValueError (``kth(=k) out of bounds (n)''); otherwise the
  result is a permutation of the indices of \<open>a\<close> with the entry at position \<open>kth\<close> no
  smaller than every entry before it and no larger than every entry after it.
  \<open>get_closest\<close> takes the library function as a parameter, so that what is proved holds
  for every tie order.
\<close>

definition partitioned_at :: "real list \<Rightarrow> nat \<Rightarrow> nat list \<Rightarrow> bool" where
  "partitioned_at a kth p \<longleftrightarrow>
     distinct p \<and> set p = {0..<length a} \<and>
     (\<forall>i < length p. (i < kth \<longrightarrow> a ! (p ! i) \<le> a ! (p ! kth)) \<and>
                      (kth < i \<longrightarrow> a ! (p ! kth) \<le> a ! (p ! i)))"

definition argpartition_contract :: "(real list \<Rightarrow> nat \<Rightarrow> error + nat list) \<Rightarrow> bool" where
  "argpartition_contract ap \<longleftrightarrow>
     (\<forall>a kth. if a \<noteq> [] \<and> length a \<le> kth then ap a kth = Inl ValueError
              else \<exists>p. ap a kth = Inr p \<and> partitioned_at a kth p)"

text \<open>
  One function that meets the contract, for running the module on concrete meshes: the
  indices in ascending order of their entries (a full sort is in particular partitioned
  at every position).
\<close>

definition np_argpartition :: "real list \<Rightarrow> nat \<Rightarrow> error + nat list" where
  "np_argpartition a kth =
     (if a \<noteq> [] \<and> length a \<le> kth then Inl ValueError
      else Inr (sort_key (\<lambda>i. a ! i) [0..<length a]))"

subsection \<open>get\_closest\<close>

text \<open>
  \<^verbatim>\<open>
  def get_closest(init_pos, mesh, max_dist=None):
      init_pos = np.array(init_pos).reshape(1, -1)
      mesh = np.array(mesh)
      num_pins_per_pt = max(1, mesh.shape[0] // 50)
      num_to_pin = min(mesh.shape[0], num_pins_per_pt)
      dists = np.linalg.norm(mesh - init_pos, axis=1)
      anchor_vertices = np.argpartition(dists, num_to_pin)[0:num_to_pin]
      if max_dist is not None:
          anchor_vertices = anchor_vertices[dists[anchor_vertices] <= max_dist]
      new_anc_pos = mesh[anchor_vertices].mean(axis=0)
      return new_anc_pos, anchor_vertices
  \<close>
\<close>

definition mesh_dists :: "vec3 \<Rightarrow> vec3 list \<Rightarrow> real list" where
  "mesh_dists init_pos mesh = map (\<lambda>v. norm3 (sub3 v init_pos)) mesh"

definition get_closest ::
  "(real list \<Rightarrow> nat \<Rightarrow> error + nat list) \<Rightarrow> vec3 \<Rightarrow> vec3 list \<Rightarrow> real option
     \<Rightarrow> error + (position \<times> nat list)" where
  "get_closest argpartition init_pos mesh max_dist =
     (let num_pins_per_pt = max 1 (length mesh div 50);
          num_to_pin = min (length mesh) num_pins_per_pt;
          dists = mesh_dists init_pos mesh
      in case argpartition dists num_to_pin of
           Inl e \<Rightarrow> Inl e
         | Inr part \<Rightarrow>
             (case (case max_dist of
                      None \<Rightarrow> Inr (take num_to_pin part)
                    | Some md \<Rightarrow>
                        (case index_array dists (take num_to_pin part) of
                           Inl e \<Rightarrow> Inl e
                         | Inr ds \<Rightarrow>
                             Inr (map fst (filter (\<lambda>(v, d). d \<le> md)
                                                  (zip (take num_to_pin part) ds))))) of
                Inl e \<Rightarrow> Inl e
              | Inr anchor_vertices \<Rightarrow>
                  (case index_array mesh anchor_vertices of
                     Inl e \<Rightarrow> Inl e
                   | Inr rows \<Rightarrow> Inr (mean_axis0 rows, anchor_vertices))))"

text \<open>
  The cluster size \<open>num_to_pin\<close> as a function of the number of mesh points, named so
  that statements can refer to it.
\<close>

definition cluster_size :: "nat \<Rightarrow> nat" where
  "cluster_size n = min n (max 1 (n div 50))"



subsection \<open>The simulator\<close>

text \<open>
  The module is handed a PyBullet client \<^verbatim>\<open>sim\<close> and changes it through eight calls.
  The state below holds what those calls read and write: the shapes, the rigid bodies with
  the colour they are drawn in, the deformable bodies with their vertex positions, the
  soft-body anchor constraints and the forces requested for the current step. Bodies and
  constraints are numbered from counters of their own: \<^verbatim>\<open>createSoftBodyAnchor\<close> returns
  the unique id of the constraint it creates and \<^verbatim>\<open>removeConstraint\<close> takes such a
  constraint id (PyBullet's parameter \<^verbatim>\<open>userConstraintUniqueId\<close>). A call that fails
  raises the simulator's error and leaves the state as it is; the changes made before it
  stay.
\<close>

record body =
  baseMass :: real
  basePosition :: position
  baseCollisionShapeIndex :: int
  baseVisualShapeIndex :: int
  useMaximalCoordinates :: bool
  rgbaColor :: rgba
  linearVelocity :: vec3

record soft_body_anchor =
  softBodyBodyUniqueId :: nat
  nodeIndex :: nat
  bodyUniqueId :: nat
  linkIndex :: int

datatype frame = LINK_FRAME | WORLD_FRAME

record sim =
  visualShapes :: "(real \<times> rgba) list"
  collisionShapes :: "real list"
  bodies :: "nat \<rightharpoonup> body"
  meshes :: "nat \<rightharpoonup> vec3 list"
  nextBodyId :: nat
  constraints :: "(nat \<times> soft_body_anchor) list"
  nextConstraintId :: nat
  externalForces :: "(nat \<times> int \<times> vec3 \<times> vec3 \<times> frame) list"

text \<open>\<^verbatim>\<open>sim.createVisualShape(pybullet.GEOM_SPHERE, radius=radius, rgbaColor=rgba)\<close>\<close>

definition createVisualShape :: "sim \<Rightarrow> real \<Rightarrow> rgba \<Rightarrow> int \<times> sim" where
  "createVisualShape s radius rgba =
     (int (length (visualShapes s)), s\<lparr>visualShapes := visualShapes s @ [(radius, rgba)]\<rparr>)"

text \<open>\<^verbatim>\<open>sim.createCollisionShape(pybullet.GEOM_SPHERE, radius=radius)\<close>\<close>

definition createCollisionShape :: "sim \<Rightarrow> real \<Rightarrow> int \<times> sim" where
  "createCollisionShape s radius =
     (int (length (collisionShapes s)), s\<lparr>collisionShapes := collisionShapes s @ [radius]\<rparr>)"

text \<open>
  \<^verbatim>\<open>sim.createMultiBody(baseMass, basePosition, baseCollisionShapeIndex,
  baseVisualShapeIndex, useMaximalCoordinates)\<close>: a new body under the next body id, drawn
  in the colour of its visual shape (white when it has none), at rest.
\<close>

definition createMultiBody ::
  "sim \<Rightarrow> real \<Rightarrow> position \<Rightarrow> int \<Rightarrow> int \<Rightarrow> bool \<Rightarrow> nat \<times> sim" where
  "createMultiBody s mass pos collisionShape visualShape maximal =
     (nextBodyId s,
      s\<lparr>bodies := (bodies s)(nextBodyId s \<mapsto>
           \<lparr>baseMass = mass, basePosition = pos,
            baseCollisionShapeIndex = collisionShape, baseVisualShapeIndex = visualShape,
            useMaximalCoordinates = maximal,
            rgbaColor = (if 0 \<le> visualShape \<and> nat visualShape < length (visualShapes s)
                         then snd (visualShapes s ! nat visualShape) else (1, 1, 1, 1)),
            linearVelocity = (0, 0, 0)\<rparr>),
         nextBodyId := Suc (nextBodyId s)\<rparr>)"

text \<open>
  \<^verbatim>\<open>sim.getBaseVelocity(id)\<close> returns the linear and the angular velocity; the module
  keeps the linear one only.
\<close>

definition getBaseVelocity :: "sim \<Rightarrow> nat \<Rightarrow> (error + vec3) \<times> sim" where
  "getBaseVelocity s objectUniqueId =
     (case bodies s objectUniqueId of
        None \<Rightarrow> (Inl SimError, s)
      | Some b \<Rightarrow> (Inr (linearVelocity b), s))"

text \<open>
  \<^verbatim>\<open>sim.applyExternalForce(id, linkIndex, forceObj, posObj, flags)\<close>: the force is
  requested for the current step.
\<close>

definition applyExternalForce ::
  "sim \<Rightarrow> nat \<Rightarrow> int \<Rightarrow> vec3 \<Rightarrow> vec3 \<Rightarrow> frame \<Rightarrow> sim" where
  "applyExternalForce s objectUniqueId link forceObj posObj flags =
     s\<lparr>externalForces := externalForces s @ [(objectUniqueId, link, forceObj, posObj, flags)]\<rparr>"

text \<open>
  \<^verbatim>\<open>sim.changeVisualShape(id, -1, rgbaColor=rgba)\<close>: recolours the base of the body. For
  a body id the simulator does not know PyBullet only warns: the call returns and nothing
  changes.
\<close>

definition changeVisualShape :: "sim \<Rightarrow> nat \<Rightarrow> rgba \<Rightarrow> (error + unit) \<times> sim" where
  "changeVisualShape s objectUniqueId rgba =
     (case bodies s objectUniqueId of
        None \<Rightarrow> (Inr (), s)
      | Some b \<Rightarrow> (Inr (), s\<lparr>bodies := (bodies s)(objectUniqueId \<mapsto> b\<lparr>rgbaColor := rgba\<rparr>)\<rparr>))"

text \<open>
  \<^verbatim>\<open>sim.createSoftBodyAnchor(softBodyBodyUniqueId, nodeIndex, bodyUniqueId, linkIndex)\<close>:
  pins one vertex of a deformable to a body; the constraint gets the next constraint id,
  which is returned. The call fails for an unknown deformable or a vertex index out of
  range; the body id is not checked.
\<close>

definition createSoftBodyAnchor ::
  "sim \<Rightarrow> nat \<Rightarrow> nat \<Rightarrow> nat \<Rightarrow> int \<Rightarrow> (error + nat) \<times> sim" where
  "createSoftBodyAnchor s softBody node bodyId link =
     (case meshes s softBody of
        None \<Rightarrow> (Inl SimError, s)
      | Some m \<Rightarrow>
          if node < length m
          then (Inr (nextConstraintId s),
                s\<lparr>constraints := constraints s @
                     [(nextConstraintId s,
                       \<lparr>softBodyBodyUniqueId = softBody, nodeIndex = node,
                        bodyUniqueId = bodyId, linkIndex = link\<rparr>)],
                  nextConstraintId := Suc (nextConstraintId s)\<rparr>)
          else (Inl SimError, s))"

text \<open>
  \<^verbatim>\<open>sim.removeConstraint(userConstraintUniqueId)\<close>: removes the constraint with that
  constraint id; an id no constraint has removes nothing.
\<close>

definition removeConstraint :: "sim \<Rightarrow> nat \<Rightarrow> sim" where
  "removeConstraint s userConstraintUniqueId =
     s\<lparr>constraints := filter (\<lambda>(uid, c). uid \<noteq> userConstraintUniqueId) (constraints s)\<rparr>"

text \<open>
  Modelled from the spec: \<^verbatim>\<open>get_mesh_data\<close> of \<^verbatim>\<open>mesh_utils\<close>, which is not among the
  sources. The spec has the fixed pin read ``the mesh's current vertex positions''; the
  call returns the number of vertices and their positions.
\<close>

definition get_mesh_data :: "sim \<Rightarrow> nat \<Rightarrow> (error + (nat \<times> vec3 list)) \<times> sim" where
  "get_mesh_data s deform_id =
     (case meshes s deform_id of
        None \<Rightarrow> (Inl SimError, s)
      | Some m \<Rightarrow> (Inr (length m, m), s))"

text \<open>The constraints that bind a vertex to the given body, and the colour of a body.\<close>

definition anchor_constraints :: "sim \<Rightarrow> nat \<Rightarrow> (nat \<times> soft_body_anchor) list" where
  "anchor_constraints s anchor_id = filter (\<lambda>(uid, c). bodyUniqueId c = anchor_id) (constraints s)"

definition body_color :: "sim \<Rightarrow> nat \<Rightarrow> rgba option" where
  "body_color s anchor_id = map_option rgbaColor (bodies s anchor_id)"

subsection \<open>create\_anchor\_geom and create\_anchor\<close>

text \<open>
  \<^verbatim>\<open>
  def create_anchor_geom(sim, pos, mass=ANCHOR_MASS, radius=ANCHOR_RADIUS,
                         rgba=ANCHOR_RGBA_INACTIVE, use_collision=True):
      anchorVisualShape = sim.createVisualShape(
          pybullet.GEOM_SPHERE, radius=radius, rgbaColor=rgba)
      if mass > 0 and use_collision:
          anchorCollisionShape = sim.createCollisionShape(
              pybullet.GEOM_SPHERE, radius=radius)
      else:
          anchorCollisionShape = -1
      anchorId = sim.createMultiBody(baseMass=mass, basePosition=pos,
                                     baseCollisionShapeIndex=anchorCollisionShape,
                                     baseVisualShapeIndex=anchorVisualShape,
                                     useMaximalCoordinates=True)
      return anchorId
  \<close>
  The default arguments are written out at the calls.
\<close>

definition create_anchor_geom ::
  "sim \<Rightarrow> position \<Rightarrow> real \<Rightarrow> real \<Rightarrow> rgba \<Rightarrow> bool \<Rightarrow> nat \<times> sim" where
  "create_anchor_geom s pos mass radius rgba use_collision =
     (case createVisualShape s radius rgba of
        (anchorVisualShape, s1) \<Rightarrow>
          (case (if mass > 0 \<and> use_collision then createCollisionShape s1 radius
                 else (- 1, s1)) of
             (anchorCollisionShape, s2) \<Rightarrow>
               createMultiBody s2 mass pos anchorCollisionShape anchorVisualShape True))"

text \<open>
  \<^verbatim>\<open>
  def create_anchor(sim, anchor_pos, anchor_idx, preset_vertices, mesh, mass=0.1,
                    radius=0.005, rgba=(1, 0, 1, 1.0), use_preset=True, use_closest=True):
      anchor_vertices = None
      if use_preset and preset_vertices is not None:
          anchor_vertices = preset_vertices[anchor_idx]
          anchor_pos = mesh[anchor_vertices].mean(axis=0)
      elif use_closest:
          anchor_pos, anchor_vertices = get_closest(anchor_pos, mesh)
      anchorGeomId = create_anchor_geom(sim, anchor_pos, mass, radius, rgba)
      return anchorGeomId, anchor_pos, anchor_vertices
  \<close>
  \<open>preset_vertices\<close> is \<open>None\<close> or one vertex list per anchor slot; the returned
  \<open>anchor_vertices\<close> is \<open>None\<close> when neither branch selects.
\<close>

definition create_anchor ::
  "(real list \<Rightarrow> nat \<Rightarrow> error + nat list) \<Rightarrow> sim \<Rightarrow> vec3 \<Rightarrow> nat \<Rightarrow> nat list list option
     \<Rightarrow> vec3 list \<Rightarrow> real \<Rightarrow> real \<Rightarrow> rgba \<Rightarrow> bool \<Rightarrow> bool
     \<Rightarrow> (error + (nat \<times> position \<times> nat list option)) \<times> sim" where
  "create_anchor argpartition s anchor_pos anchor_idx preset_vertices mesh mass radius rgba
       use_preset use_closest =
     (case (case (if use_preset then preset_vertices else None) of
              Some presets \<Rightarrow>
                (if anchor_idx < length presets
                 then (case index_array mesh (presets ! anchor_idx) of
                         Inl e \<Rightarrow> Inl e
                       | Inr rows \<Rightarrow> Inr (mean_axis0 rows, Some (presets ! anchor_idx)))
                 else Inl IndexError)
            | None \<Rightarrow>
                (if use_closest
                 then (case get_closest argpartition anchor_pos mesh None of
                         Inl e \<Rightarrow> Inl e
                       | Inr (new_anc_pos, anchor_vertices) \<Rightarrow>
                           Inr (new_anc_pos, Some anchor_vertices))
                 else Inr (Finite anchor_pos, None))) of
        Inl e \<Rightarrow> (Inl e, s)
      | Inr (pos, anchor_vertices) \<Rightarrow>
          (case create_anchor_geom s pos mass radius rgba True of
             (anchorGeomId, s') \<Rightarrow> (Inr (anchorGeomId, pos, anchor_vertices), s')))"

subsection \<open>command\_anchor\_velocity\<close>

text \<open>
  \<^verbatim>\<open>
  def command_anchor_velocity(sim, anchor_bullet_id, tgt_vel):
      anc_linvel, _ = sim.getBaseVelocity(anchor_bullet_id)
      vel_diff = tgt_vel - np.array(anc_linvel)
      force = CTRL_PD_KD * vel_diff
      force = np.clip(force, -1.0 * CTRL_MAX_FORCE, CTRL_MAX_FORCE)
      sim.applyExternalForce(
          anchor_bullet_id, -1, force.tolist(), [0, 0, 0], pybullet.LINK_FRAME)
  \<close>
  \<^verbatim>\<open>np.clip(a, lo, hi)\<close> is \<open>minimum(maximum(a, lo), hi)\<close>, entry by entry.
\<close>

fun scale3 :: "real \<Rightarrow> vec3 \<Rightarrow> vec3" where
  "scale3 k (x, y, z) = (k * x, k * y, k * z)"

definition clip :: "real \<Rightarrow> real \<Rightarrow> real \<Rightarrow> real" where
  "clip a lo hi = min (max a lo) hi"

fun clip3 :: "vec3 \<Rightarrow> real \<Rightarrow> real \<Rightarrow> vec3" where
  "clip3 (x, y, z) lo hi = (clip x lo hi, clip y lo hi, clip z lo hi)"

definition command_anchor_velocity :: "sim \<Rightarrow> nat \<Rightarrow> vec3 \<Rightarrow> (error + unit) \<times> sim" where
  "command_anchor_velocity s anchor_bullet_id tgt_vel =
     (case getBaseVelocity s anchor_bullet_id of
        (Inl e, s1) \<Rightarrow> (Inl e, s1)
      | (Inr anc_linvel, s1) \<Rightarrow>
          (let vel_diff = sub3 tgt_vel anc_linvel;
               force = scale3 CTRL_PD_KD vel_diff;
               force = clip3 force (- 1 * CTRL_MAX_FORCE) CTRL_MAX_FORCE
           in (Inr (), applyExternalForce s1 anchor_bullet_id (- 1) force (0, 0, 0) LINK_FRAME)))"

subsection \<open>attach\_anchor, release\_anchor and pin\_fixed\<close>

text \<open>
  \<^verbatim>\<open>
  def attach_anchor(sim, anchor_id, anchor_vertices, deform_id, change_color=False):
      if change_color:
          sim.changeVisualShape(anchor_id, -1, rgbaColor=ANCHOR_RGBA_ACTIVE)
      for v in anchor_vertices:
          sim.createSoftBodyAnchor(deform_id, v, anchor_id, -1)
  \<close>
  The loop is \<open>attach_vertices\<close>; the constraint id each call returns is dropped, as
  in the source.
\<close>

fun attach_vertices :: "sim \<Rightarrow> nat \<Rightarrow> nat list \<Rightarrow> nat \<Rightarrow> (error + unit) \<times> sim" where
  "attach_vertices s anchor_id [] deform_id = (Inr (), s)"
| "attach_vertices s anchor_id (v # vs) deform_id =
     (case createSoftBodyAnchor s deform_id v anchor_id (- 1) of
        (Inl e, s1) \<Rightarrow> (Inl e, s1)
      | (Inr uid, s1) \<Rightarrow> attach_vertices s1 anchor_id vs deform_id)"

definition attach_anchor ::
  "sim \<Rightarrow> nat \<Rightarrow> nat list \<Rightarrow> nat \<Rightarrow> bool \<Rightarrow> (error + unit) \<times> sim" where
  "attach_anchor s anchor_id anchor_vertices deform_id change_color =
     (case (if change_color then changeVisualShape s anchor_id ANCHOR_RGBA_ACTIVE
            else (Inr (), s)) of
        (Inl e, s1) \<Rightarrow> (Inl e, s1)
      | (Inr u, s1) \<Rightarrow> attach_vertices s1 anchor_id anchor_vertices deform_id)"

text \<open>
  \<^verbatim>\<open>
  def release_anchor(sim, anchor_id):
      sim.removeConstraint(anchor_id)
      sim.changeVisualShape(anchor_id, -1, rgbaColor=ANCHOR_RGBA_INACTIVE)
  \<close>
\<close>

definition release_anchor :: "sim \<Rightarrow> nat \<Rightarrow> (error + unit) \<times> sim" where
  "release_anchor s anchor_id =
     changeVisualShape (removeConstraint s anchor_id) anchor_id ANCHOR_RGBA_INACTIVE"

text \<open>
  \<^verbatim>\<open>
  def pin_fixed(sim, deform_id, vert_ids):
      _, v_pos_list = get_mesh_data(sim, deform_id)
      for v_idx in vert_ids:
          v_pos = v_pos_list[v_idx]
          anc_id = create_anchor_geom(sim, v_pos, mass=0.0, radius=0.002,
                                      rgba=ANCHOR_RGBA_PEACH)
          sim.createSoftBodyAnchor(deform_id, v_idx, anc_id, -1)
  \<close>
\<close>

fun pin_vertices :: "sim \<Rightarrow> nat \<Rightarrow> vec3 list \<Rightarrow> nat list \<Rightarrow> (error + unit) \<times> sim" where
  "pin_vertices s deform_id v_pos_list [] = (Inr (), s)"
| "pin_vertices s deform_id v_pos_list (v_idx # rest) =
     (if v_idx < length v_pos_list
      then (case create_anchor_geom s (Finite (v_pos_list ! v_idx)) 0 (2 / 1000)
                   ANCHOR_RGBA_PEACH True of
              (anc_id, s1) \<Rightarrow>
                (case createSoftBodyAnchor s1 deform_id v_idx anc_id (- 1) of
                   (Inl e, s2) \<Rightarrow> (Inl e, s2)
                 | (Inr uid, s2) \<Rightarrow> pin_vertices s2 deform_id v_pos_list rest))
      else (Inl IndexError, s))"

definition pin_fixed :: "sim \<Rightarrow> nat \<Rightarrow> nat list \<Rightarrow> (error + unit) \<times> sim" where
  "pin_fixed s deform_id vert_ids =
     (case get_mesh_data s deform_id of
        (Inl e, s1) \<Rightarrow> (Inl e, s1)
      | (Inr (n, v_pos_list), s1) \<Rightarrow> pin_vertices s1 deform_id v_pos_list vert_ids)"

subsection \<open>A small simulator state for running the module\<close>

text \<open>
  One deformable with two vertices (body 0) and one anchor marker (body 1) that moves
  along the x axis; no constraint yet.
\<close>

definition marker :: body where
  "marker = \<lparr>baseMass = 1 / 10, basePosition = Finite (0, 0, 0),
             baseCollisionShapeIndex = 0, baseVisualShapeIndex = 0,
             useMaximalCoordinates = True, rgbaColor = (1 / 2, 1 / 2, 1 / 2, 1),
             linearVelocity = (1, 0, 0)\<rparr>"

definition sim0 :: sim where
  "sim0 = \<lparr>visualShapes = [(7 / 1000, (1 / 2, 1 / 2, 1 / 2, 1))], collisionShapes = [7 / 1000],
           bodies = [1 \<mapsto> marker], meshes = [0 \<mapsto> [(0, 0, 0), (1, 0, 0)]],
           nextBodyId = 2, constraints = [], nextConstraintId = 1, externalForces = []\<rparr>"

subsection \<open>Facts about the array helpers and the partition contract\<close>

lemma partitioned_at_length: "partitioned_at a kth p \<Longrightarrow> length p = length a"
  unfolding partitioned_at_def by (metis card_atLeastLessThan distinct_card diff_zero)

lemma partitioned_at_mset:
  assumes "partitioned_at a kth p"
  shows "mset (map (\<lambda>i. a ! i) p) = mset a"
proof -
  have "mset p = mset [0..<length a]"
    using assms unfolding partitioned_at_def
    by (metis distinct_upt set_eq_iff_mset_eq_distinct set_upt)
  then have "mset (map (\<lambda>i. a ! i) p) = mset (map (\<lambda>i. a ! i) [0..<length a])"
    by (metis mset_map)
  then show ?thesis by (simp add: map_nth)
qed

lemma pivot_nth_sort:
  fixes b :: "real list"
  assumes k: "k < length b"
    and lo: "\<forall>i < length b. i < k \<longrightarrow> b ! i \<le> b ! k"
    and hi: "\<forall>i < length b. k < i \<longrightarrow> b ! k \<le> b ! i"
  shows "sort b ! k = b ! k"
proof -
  let ?L = "sort (take k b)" and ?R = "sort (drop (Suc k) b)"
  have split: "b = take k b @ b ! k # drop (Suc k) b"
    using k by (rule id_take_nth_drop)
  have L: "\<forall>x \<in> set (take k b). x \<le> b ! k"
    using lo k by (auto simp: in_set_conv_nth)
  have R: "\<forall>x \<in> set (drop (Suc k) b). b ! k \<le> x"
    using hi k by (auto simp: in_set_conv_nth)
  have "sorted (?L @ b ! k # ?R)"
    using L R by (auto simp: sorted_append intro: order_trans)
  moreover have "mset (?L @ b ! k # ?R) = mset b"
    by (subst (3) split) simp
  ultimately have "sort b = ?L @ b ! k # ?R"
    by (metis properties_for_sort)
  moreover have "length ?L = k" using k by simp
  ultimately show ?thesis by (metis nth_append_length)
qed

lemma partitioned_at_pivot:
  assumes p: "partitioned_at a kth p" and k: "kth < length a"
  shows "a ! (p ! kth) = sort a ! kth"
proof -
  let ?b = "map (\<lambda>i. a ! i) p"
  have len: "length p = length a" using p by (rule partitioned_at_length)
  have "sort ?b ! kth = ?b ! kth"
    using p k len unfolding partitioned_at_def by (intro pivot_nth_sort) auto
  moreover have "sort ?b = sort a"
    using partitioned_at_mset [OF p] by (metis sorted_list_of_multiset_mset)
  ultimately show ?thesis using k len by simp
qed

lemma sorted_indices_partitioned:
  assumes "a = [] \<or> kth < length a"
  shows "partitioned_at a kth (sort_key (\<lambda>i. a ! i) [0..<length a])"
proof -
  let ?p = "sort_key (\<lambda>i. a ! i) [0..<length a]"
  have s: "sorted (map (\<lambda>i. a ! i) ?p)" by (rule sorted_sort_key)
  have len: "length ?p = length a" by simp
  have "\<And>i j. i \<le> j \<Longrightarrow> j < length ?p \<Longrightarrow> a ! (?p ! i) \<le> a ! (?p ! j)"
    using sorted_nth_mono [OF s] by (simp del: length_sort)
  then show ?thesis
    using assms unfolding partitioned_at_def by (auto simp del: length_sort simp: len)
qed

lemma np_argpartition_contract: "argpartition_contract np_argpartition"
proof -
  have "partitioned_at [] kth []" for kth
    by (simp add: partitioned_at_def)
  moreover have "partitioned_at a kth (sort_key (\<lambda>i. a ! i) [0..<length a])"
    if "kth < length a" for a kth
    using that by (simp add: sorted_indices_partitioned)
  ultimately show ?thesis
    unfolding argpartition_contract_def np_argpartition_def
    by (simp add: not_le)
qed

lemma index_array_Inr_iff:
  "index_array a idx = Inr rows \<longleftrightarrow> (\<forall>i \<in> set idx. i < length a) \<and> rows = map (\<lambda>i. a ! i) idx"
  by (auto simp: index_array_def)

lemma index_array_Inl_iff:
  "index_array a idx = Inl e \<longleftrightarrow> \<not> (\<forall>i \<in> set idx. i < length a) \<and> e = IndexError"
  by (auto simp: index_array_def)

lemma mask_filter:
  "map fst (filter (\<lambda>(v, d). d \<le> md) (zip vs (map f vs))) = filter (\<lambda>v. f v \<le> md) vs"
  by (induction vs) auto

lemma length_mesh_dists [simp]: "length (mesh_dists init_pos mesh) = length mesh"
  by (simp add: mesh_dists_def)

lemma get_closest_None:
  "get_closest ap init_pos mesh None =
     (case ap (mesh_dists init_pos mesh) (cluster_size (length mesh)) of
        Inl e \<Rightarrow> Inl e
      | Inr part \<Rightarrow>
          (case index_array mesh (take (cluster_size (length mesh)) part) of
             Inl e \<Rightarrow> Inl e
           | Inr rows \<Rightarrow> Inr (mean_axis0 rows, take (cluster_size (length mesh)) part)))"
  unfolding get_closest_def Let_def cluster_size_def by (simp split: sum.splits)

lemma get_closest_Some:
  "get_closest ap init_pos mesh (Some md) =
     (case ap (mesh_dists init_pos mesh) (cluster_size (length mesh)) of
        Inl e \<Rightarrow> Inl e
      | Inr part \<Rightarrow>
          (case index_array (mesh_dists init_pos mesh) (take (cluster_size (length mesh)) part) of
             Inl e \<Rightarrow> Inl e
           | Inr ds \<Rightarrow>
              (case index_array mesh (map fst (filter (\<lambda>(v, d). d \<le> md)
                            (zip (take (cluster_size (length mesh)) part) ds))) of
                 Inl e \<Rightarrow> Inl e
               | Inr rows \<Rightarrow> Inr (mean_axis0 rows, map fst (filter (\<lambda>(v, d). d \<le> md)
                            (zip (take (cluster_size (length mesh)) part) ds))))))"
  unfolding get_closest_def Let_def cluster_size_def by (simp split: sum.splits)

lemma get_closest_None_Inr_iff:
  "get_closest ap init_pos mesh None = Inr (c, vs) \<longleftrightarrow>
     (\<exists>p. ap (mesh_dists init_pos mesh) (cluster_size (length mesh)) = Inr p \<and>
          vs = take (cluster_size (length mesh)) p \<and>
          (\<forall>i \<in> set vs. i < length mesh) \<and>
          c = mean_axis0 (map (\<lambda>i. mesh ! i) vs))"
  unfolding get_closest_None
  by (auto simp: index_array_def split: sum.splits)

lemma get_closest_Some_Inr_iff:
  "get_closest ap init_pos mesh (Some md) = Inr (c, vs) \<longleftrightarrow>
     (\<exists>p. ap (mesh_dists init_pos mesh) (cluster_size (length mesh)) = Inr p \<and>
          (\<forall>i \<in> set (take (cluster_size (length mesh)) p). i < length mesh) \<and>
          vs = filter (\<lambda>v. mesh_dists init_pos mesh ! v \<le> md)
                 (take (cluster_size (length mesh)) p) \<and>
          c = mean_axis0 (map (\<lambda>i. mesh ! i) vs))"
  unfolding get_closest_Some
  by (auto simp: index_array_def mask_filter split: sum.splits)

lemma cluster_size_bounds: "2 \<le> n \<Longrightarrow> 0 < cluster_size n \<and> cluster_size n < n"
  by (auto simp: cluster_size_def)

lemma cluster_size_one: "cluster_size (Suc 0) = Suc 0"
  by (simp add: cluster_size_def)

lemma contract_ValueError:
  "argpartition_contract ap \<Longrightarrow> a \<noteq> [] \<Longrightarrow> length a \<le> kth \<Longrightarrow> ap a kth = Inl ValueError"
  unfolding argpartition_contract_def by (erule allE [of _ a], erule allE [of _ kth]) simp

lemma contract_partitioned:
  "argpartition_contract ap \<Longrightarrow> a = [] \<or> kth < length a \<Longrightarrow>
     \<exists>p. ap a kth = Inr p \<and> partitioned_at a kth p"
  unfolding argpartition_contract_def by (erule allE [of _ a], erule allE [of _ kth]) auto

lemma get_closest_single_vertex:
  assumes "argpartition_contract ap"
  shows "get_closest ap init_pos [v] max_dist = Inl ValueError"
proof -
  have "ap (mesh_dists init_pos [v]) (cluster_size (length [v])) = Inl ValueError"
    using assms by (intro contract_ValueError) (simp_all add: mesh_dists_def cluster_size_one)
  then show ?thesis
    by (cases max_dist) (simp_all add: get_closest_None get_closest_Some)
qed

lemma get_closest_partition:
  assumes ap: "argpartition_contract ap" and n: "length mesh \<noteq> 1"
  shows "\<exists>p. ap (mesh_dists init_pos mesh) (cluster_size (length mesh)) = Inr p \<and>
             partitioned_at (mesh_dists init_pos mesh) (cluster_size (length mesh)) p \<and>
             get_closest ap init_pos mesh None
               = Inr (mean_axis0 (map (\<lambda>i. mesh ! i) (take (cluster_size (length mesh)) p)),
                      take (cluster_size (length mesh)) p)"
proof -
  let ?d = "mesh_dists init_pos mesh" and ?k = "cluster_size (length mesh)"
  have "?d = [] \<or> ?k < length ?d"
  proof (cases "mesh = []")
    case True
    then show ?thesis by (simp add: mesh_dists_def)
  next
    case False
    then have "length mesh \<noteq> 0" by simp
    with n have "2 \<le> length mesh" by linarith
    then show ?thesis using cluster_size_bounds by simp
  qed
  with ap obtain p where p: "ap ?d ?k = Inr p" "partitioned_at ?d ?k p"
    using contract_partitioned by blast
  have "set p = {0..<length mesh}" using p(2) by (simp add: partitioned_at_def)
  then have "\<forall>i \<in> set (take ?k p). i < length mesh"
    by (auto dest!: in_set_takeD)
  then have "get_closest ap init_pos mesh None
               = Inr (mean_axis0 (map (\<lambda>i. mesh ! i) (take ?k p)), take ?k p)"
    using p(1) by (simp add: get_closest_None_Inr_iff)
  with p show ?thesis by blast
qed

lemma get_closest_size:
  assumes ap: "argpartition_contract ap" and n: "2 \<le> length mesh"
  shows "\<exists>c vs. get_closest ap init_pos mesh None = Inr (c, vs) \<and>
           length vs = min (length mesh) (max 1 (length mesh div 50)) \<and> vs \<noteq> []"
proof -
  let ?k = "cluster_size (length mesh)"
  from n have "length mesh \<noteq> 1" by simp
  from get_closest_partition [OF ap this, of init_pos] obtain p where
    p: "partitioned_at (mesh_dists init_pos mesh) ?k p"
       "get_closest ap init_pos mesh None
          = Inr (mean_axis0 (map (\<lambda>i. mesh ! i) (take ?k p)), take ?k p)"
    by blast
  have len: "length p = length mesh" using partitioned_at_length [OF p(1)] by simp
  have k: "0 < ?k" "?k < length mesh" using cluster_size_bounds [OF n] by simp_all
  have "length (take ?k p) = ?k" using k len by simp
  moreover from this k have "take ?k p \<noteq> []" by (metis length_0_conv less_numeral_extra(3))
  ultimately show ?thesis using p(2) unfolding cluster_size_def [symmetric] by blast
qed


lemma get_closest_None_partitioned:
  assumes ap: "argpartition_contract ap"
    and res: "get_closest ap init_pos mesh None = Inr (c, vs)"
  shows "\<exists>p. partitioned_at (mesh_dists init_pos mesh) (cluster_size (length mesh)) p \<and>
             vs = take (cluster_size (length mesh)) p \<and>
             (mesh = [] \<or> 2 \<le> length mesh)"
proof -
  have n: "length mesh \<noteq> 1"
  proof
    assume "length mesh = 1"
    then obtain v where "mesh = [v]" by (cases mesh) auto
    with res get_closest_single_vertex [OF ap] show False by simp
  qed
  from get_closest_partition [OF ap n, of init_pos] res
  have "\<exists>p. partitioned_at (mesh_dists init_pos mesh) (cluster_size (length mesh)) p \<and>
             vs = take (cluster_size (length mesh)) p" by auto
  moreover have "mesh = [] \<or> 2 \<le> length mesh"
    using n by (cases mesh) (auto simp: Suc_le_eq)
  ultimately show ?thesis by blast
qed

lemma upt3: "[0..<3] = [0, 1, 2]"
  by (simp add: upt_conv_Cons)

lemma d_example: "mesh_dists (0, 0, 0) [(3, 0, 0), (0, 2, 0), (1, 0, 0)] = [3, 2, 1]"
  by (simp add: mesh_dists_def)

lemma ap_example: "np_argpartition [3, 2, 1] 1 = Inr [2, 1, 0]"
  by (simp add: np_argpartition_def upt3)

lemma cs_example: "cluster_size (length [(3, 0, 0), (0, 2, 0), (1, 0, 0) :: vec3]) = 1"
  by (simp add: cluster_size_def)

lemma get_closest_example:
  "get_closest np_argpartition (0, 0, 0) [(3, 0, 0), (0, 2, 0), (1, 0, 0)] None
     = Inr (Finite (1, 0, 0), [2])"
  by (simp only: get_closest_None cs_example d_example ap_example)
     (simp add: index_array_def mean_axis0_def)

lemma get_closest_k_closest_dists:
  assumes ap: "argpartition_contract ap"
    and res: "get_closest ap init_pos mesh None = Inr (c, vs)"
  shows "distinct vs \<and> (vs \<noteq> [] \<longrightarrow> length vs < length mesh) \<and>
         (\<forall>v \<in> set vs. v < length mesh \<and>
            mesh_dists init_pos mesh ! v \<le> sort (mesh_dists init_pos mesh) ! length vs) \<and>
         (\<forall>v \<in> set vs. \<forall>u < length mesh. u \<notin> set vs \<longrightarrow>
            mesh_dists init_pos mesh ! v \<le> mesh_dists init_pos mesh ! u)"
proof -
  let ?d = "mesh_dists init_pos mesh" and ?k = "cluster_size (length mesh)"
  from get_closest_None_partitioned [OF ap res] obtain p where
    p: "partitioned_at ?d ?k p" and vs: "vs = take ?k p" and n: "mesh = [] \<or> 2 \<le> length mesh"
    by blast
  have len: "length p = length mesh" using partitioned_at_length [OF p] by simp
  have dist: "distinct p" and setp: "set p = {0..<length mesh}"
    and lo: "\<And>i. i < length p \<Longrightarrow> i < ?k \<Longrightarrow> ?d ! (p ! i) \<le> ?d ! (p ! ?k)"
    and hi: "\<And>i. i < length p \<Longrightarrow> ?k < i \<Longrightarrow> ?d ! (p ! ?k) \<le> ?d ! (p ! i)"
    using p by (simp_all add: partitioned_at_def)
  show ?thesis
  proof (cases "mesh = []")
    case True
    with len vs show ?thesis by simp
  next
    case False
    with n have n2: "2 \<le> length mesh" by simp
    have k: "0 < ?k" "?k < length mesh" using cluster_size_bounds [OF n2] by simp_all
    have lvs: "length vs = ?k" using vs k len by simp
    have pivot: "?d ! (p ! ?k) = sort ?d ! ?k"
      using partitioned_at_pivot [OF p] k by simp
    have d1: "distinct vs" using dist vs by simp
    have in_vs: "\<exists>i < ?k. v = p ! i" if "v \<in> set vs" for v
      using that vs lvs by (metis in_set_conv_nth nth_take)
    have c3: "v < length mesh \<and> ?d ! v \<le> sort ?d ! length vs" if "v \<in> set vs" for v
    proof -
      from in_vs [OF that] obtain i where i: "i < ?k" "v = p ! i" by blast
      have "v \<in> set p" using that vs by (auto dest: in_set_takeD)
      then have "v < length mesh" using setp by simp
      moreover have "?d ! v \<le> ?d ! (p ! ?k)" using lo [of i] i k len by simp
      ultimately show ?thesis using pivot lvs by simp
    qed
    have c4: "?d ! v \<le> ?d ! u" if "v \<in> set vs" "u < length mesh" "u \<notin> set vs" for v u
    proof -
      from in_vs [OF that(1)] obtain i where i: "i < ?k" "v = p ! i" by blast
      have le_pivot: "?d ! v \<le> ?d ! (p ! ?k)" using lo [of i] i k len by simp
      from that(2) setp have "u \<in> set p" by simp
      then obtain j where j: "j < length p" "u = p ! j" by (metis in_set_conv_nth)
      have "\<not> j < ?k"
      proof
        assume "j < ?k"
        then have "p ! j \<in> set (take ?k p)" using j(1) by (metis in_set_conv_nth length_take min_less_iff_conj nth_take)
        with that(3) vs j(2) show False by simp
      qed
      then have "j = ?k \<or> ?k < j" by linarith
      then have "?d ! (p ! ?k) \<le> ?d ! u" using hi [of j] j by auto
      with le_pivot show ?thesis by simp
    qed
    from d1 lvs k c3 c4 show ?thesis by simp
  qed
qed

lemma get_closest_max_dist_dists:
  assumes "get_closest ap init_pos mesh None = Inr (c0, vs0)"
  shows "\<exists>c vs. get_closest ap init_pos mesh (Some md) = Inr (c, vs) \<and>
           vs = filter (\<lambda>v. mesh_dists init_pos mesh ! v \<le> md) vs0 \<and>
           (\<forall>v \<in> set vs0. md < mesh_dists init_pos mesh ! v \<longrightarrow> v \<notin> set vs) \<and>
           ((\<forall>v \<in> set vs0. md < mesh_dists init_pos mesh ! v) \<longrightarrow> vs = [])"
proof -
  let ?d = "mesh_dists init_pos mesh"
  let ?vs = "filter (\<lambda>v. ?d ! v \<le> md) vs0"
  from assms obtain p where p: "ap ?d (cluster_size (length mesh)) = Inr p"
    and vs0: "vs0 = take (cluster_size (length mesh)) p"
    and rng: "\<forall>i \<in> set vs0. i < length mesh"
    unfolding get_closest_None_Inr_iff by blast
  have "get_closest ap init_pos mesh (Some md) = Inr (mean_axis0 (map (\<lambda>i. mesh ! i) ?vs), ?vs)"
    unfolding get_closest_Some_Inr_iff using p vs0 rng by blast
  moreover have "\<forall>v \<in> set vs0. md < ?d ! v \<longrightarrow> v \<notin> set ?vs" by auto
  moreover have "(\<forall>v \<in> set vs0. md < ?d ! v) \<longrightarrow> ?vs = []"
    by (auto simp: filter_empty_conv)
  ultimately show ?thesis by blast
qed

lemma mesh_dists_eq:
  "mesh_dists (a, b, c) mesh
     = map (\<lambda>(x, y, z). sqrt ((x - a)\<^sup>2 + (y - b)\<^sup>2 + (z - c)\<^sup>2)) mesh"
  by (auto simp: mesh_dists_def power2_eq_square)

lemma mesh_dists_nth:
  "v < length mesh \<Longrightarrow>
     mesh_dists (a, b, c) mesh ! v
       = (case mesh ! v of (x, y, z) \<Rightarrow> sqrt ((x - a)\<^sup>2 + (y - b)\<^sup>2 + (z - c)\<^sup>2))"
  by (simp add: mesh_dists_eq)

lemma d_example2: "mesh_dists (4, 0, 0) [(0, 0, 0), (4, 3, 0), (2, 0, 0)] = [4, 3, 2]"
  by (simp add: mesh_dists_def)

lemma ap_example2: "np_argpartition [4, 3, 2] 1 = Inr [2, 1, 0]"
  by (simp add: np_argpartition_def upt3)

lemma cs_example2: "cluster_size (length [(0, 0, 0), (4, 3, 0), (2, 0, 0) :: vec3]) = 1"
  by (simp add: cluster_size_def)

lemma get_closest_example2:
  "get_closest np_argpartition (4, 0, 0) [(0, 0, 0), (4, 3, 0), (2, 0, 0)] None
     = Inr (Finite (2, 0, 0), [2])"
  by (simp only: get_closest_None cs_example2 d_example2 ap_example2)
     (simp add: index_array_def mean_axis0_def)

lemma sorted_example2:
  "sort (map (\<lambda>(x, y, z). sqrt ((x - 4)\<^sup>2 + (y - 0)\<^sup>2 + (z - 0)\<^sup>2))
          [(0, 0, 0), (4, 3, 0), (2, 0, 0)]) = [2, 3, 4 :: real]"
  by simp

subsection \<open>Claims about get\_closest\<close>

text \<open>
  Claim C1 says that for every non-empty mesh of N points \<open>get_closest\<close> without
  \<open>max_dist\<close> returns \<open>min N (max 1 (N div 50))\<close> indices, one index for a mesh of a
  single vertex. For N = 1 the module passes \<open>kth = 1\<close> to \<^verbatim>\<open>np.argpartition\<close> on an
  array of one distance, which is out of bounds: the call raises ValueError and nothing is
  returned (\<open>get_closest_single_vertex\<close> shows it for every admissible argpartition).
  For N \<ge> 2 the size is as the claim says (\<open>get_closest_size\<close>).
\<close>

theorem get_closest_single_vertex_raises:
  "get_closest np_argpartition (0, 0, 0) [(1, 2, 3)] None = Inl ValueError"
  by (simp add: get_closest_def np_argpartition_def mesh_dists_def)

text \<open>
  Claim C2: whenever \<open>get_closest\<close> with target \<open>(a, b, c)\<close> and no \<open>max_dist\<close> returns the
  index set \<open>vs\<close> of size k, every returned index is a mesh index whose Euclidean distance
  \<open>sqrt ((x - a)\<^sup>2 + (y - b)\<^sup>2 + (z - c)\<^sup>2)\<close> to the target is at most the (k+1)-th smallest
  such distance over the whole mesh, and no vertex outside \<open>vs\<close> is strictly closer to the
  target than a vertex inside; this holds for every tie order that \<^verbatim>\<open>np.argpartition\<close>
  may choose.
\<close>

theorem get_closest_k_closest:
  assumes ap: "argpartition_contract ap"
    and res: "get_closest ap (a, b, c) mesh None = Inr (cen, vs)"
  shows "distinct vs \<and> (vs \<noteq> [] \<longrightarrow> length vs < length mesh) \<and>
         (\<forall>v \<in> set vs. v < length mesh \<and>
            (case mesh ! v of (x, y, z) \<Rightarrow> sqrt ((x - a)\<^sup>2 + (y - b)\<^sup>2 + (z - c)\<^sup>2))
              \<le> sort (map (\<lambda>(x, y, z). sqrt ((x - a)\<^sup>2 + (y - b)\<^sup>2 + (z - c)\<^sup>2)) mesh)
                   ! length vs) \<and>
         (\<forall>v \<in> set vs. \<forall>u < length mesh. u \<notin> set vs \<longrightarrow>
            (case mesh ! v of (x, y, z) \<Rightarrow> sqrt ((x - a)\<^sup>2 + (y - b)\<^sup>2 + (z - c)\<^sup>2))
              \<le> (case mesh ! u of (x, y, z) \<Rightarrow> sqrt ((x - a)\<^sup>2 + (y - b)\<^sup>2 + (z - c)\<^sup>2)))"
proof -
  let ?f = "\<lambda>(x, y, z). sqrt ((x - a)\<^sup>2 + (y - b)\<^sup>2 + (z - c)\<^sup>2)"
  let ?d = "mesh_dists (a, b, c) mesh"
  note k = get_closest_k_closest_dists [OF ap res]
  have d1: "distinct vs" and d2: "vs \<noteq> [] \<longrightarrow> length vs < length mesh"
    and d3: "\<And>v. v \<in> set vs \<Longrightarrow> v < length mesh \<and> ?d ! v \<le> sort ?d ! length vs"
    and d4: "\<And>v u. v \<in> set vs \<Longrightarrow> u < length mesh \<Longrightarrow> u \<notin> set vs \<Longrightarrow> ?d ! v \<le> ?d ! u"
    using k by blast+
  have c3: "v < length mesh \<and> ?f (mesh ! v) \<le> sort (map ?f mesh) ! length vs"
    if "v \<in> set vs" for v
  proof -
    from d3 [OF that] have v: "v < length mesh" and le: "?d ! v \<le> sort ?d ! length vs"
      by simp_all
    from le have "?f (mesh ! v) \<le> sort (map ?f mesh) ! length vs"
      unfolding mesh_dists_nth [OF v, of a b c, symmetric] mesh_dists_eq [symmetric] .
    with v show ?thesis by simp
  qed
  have c4: "?f (mesh ! v) \<le> ?f (mesh ! u)"
    if "v \<in> set vs" "u < length mesh" "u \<notin> set vs" for v u
  proof -
    from d3 [OF that(1)] have v: "v < length mesh" by simp
    from d4 [OF that] show ?thesis
      unfolding mesh_dists_nth [OF v] mesh_dists_nth [OF that(2)] .
  qed
  from d1 d2 c3 c4 show ?thesis by blast
qed

theorem get_closest_k_closest_witness:
  "argpartition_contract np_argpartition \<and>
   get_closest np_argpartition (4, 0, 0) [(0, 0, 0), (4, 3, 0), (2, 0, 0)] None
     = Inr (Finite (2, 0, 0), [2]) \<and>
   (case [(0, 0, 0), (4, 3, 0), (2, 0, 0)] ! 2 of
      (x, y, z) \<Rightarrow> sqrt ((x - 4)\<^sup>2 + (y - 0)\<^sup>2 + (z - 0)\<^sup>2))
     \<le> sort (map (\<lambda>(x, y, z). sqrt ((x - 4)\<^sup>2 + (y - 0)\<^sup>2 + (z - 0)\<^sup>2))
                [(0, 0, 0), (4, 3, 0), (2, 0, 0)]) ! 1 \<and>
   sort (map (\<lambda>(x, y, z). sqrt ((x - 4)\<^sup>2 + (y - 0)\<^sup>2 + (z - 0)\<^sup>2))
          [(0, 0, 0), (4, 3, 0), (2, 0, 0)]) = [2, 3, 4 :: real]"
proof -
  note t = get_closest_k_closest [OF np_argpartition_contract get_closest_example2]
  from t have "\<forall>v \<in> set [2::nat]. v < length [(0, 0, 0), (4, 3, 0), (2, 0, 0) :: vec3] \<and>
      (case [(0, 0, 0), (4, 3, 0), (2, 0, 0)] ! v of
         (x, y, z) \<Rightarrow> sqrt ((x - 4)\<^sup>2 + (y - 0)\<^sup>2 + (z - 0)\<^sup>2))
        \<le> sort (map (\<lambda>(x, y, z). sqrt ((x - 4)\<^sup>2 + (y - 0)\<^sup>2 + (z - 0)\<^sup>2))
                   [(0, 0, 0), (4, 3, 0), (2, 0, 0)]) ! length [2::nat]"
    by (elim conjE)
  then have "(case [(0, 0, 0), (4, 3, 0), (2, 0, 0)] ! 2 of
      (x, y, z) \<Rightarrow> sqrt ((x - 4)\<^sup>2 + (y - 0)\<^sup>2 + (z - 0)\<^sup>2))
     \<le> sort (map (\<lambda>(x, y, z). sqrt ((x - 4)\<^sup>2 + (y - 0)\<^sup>2 + (z - 0)\<^sup>2))
                [(0, 0, 0), (4, 3, 0), (2, 0, 0)]) ! 1"
    by (simp del: sort_key_simps)
  with np_argpartition_contract get_closest_example2 sorted_example2 show ?thesis by blast
qed

text \<open>
  Claim C3: with a maximum distance \<open>md\<close> the call returns the uncapped selection with
  every vertex dropped whose Euclidean distance to the target \<open>(a, b, c)\<close> exceeds \<open>md\<close>; if
  \<open>md\<close> is strictly smaller than the distance of every selected vertex, the returned index
  set is empty.
\<close>

theorem get_closest_max_dist:
  assumes "get_closest ap (a, b, c) mesh None = Inr (cen0, vs0)"
  shows "\<exists>cen vs. get_closest ap (a, b, c) mesh (Some md) = Inr (cen, vs) \<and>
           vs = filter (\<lambda>v. (case mesh ! v of (x, y, z) \<Rightarrow>
                                sqrt ((x - a)\<^sup>2 + (y - b)\<^sup>2 + (z - c)\<^sup>2)) \<le> md) vs0 \<and>
           (\<forall>v \<in> set vs0.
              md < (case mesh ! v of (x, y, z) \<Rightarrow> sqrt ((x - a)\<^sup>2 + (y - b)\<^sup>2 + (z - c)\<^sup>2))
                \<longrightarrow> v \<notin> set vs) \<and>
           ((\<forall>v \<in> set vs0.
               md < (case mesh ! v of (x, y, z) \<Rightarrow> sqrt ((x - a)\<^sup>2 + (y - b)\<^sup>2 + (z - c)\<^sup>2)))
                \<longrightarrow> vs = [])"
proof -
  let ?f = "\<lambda>(x, y, z). sqrt ((x - a)\<^sup>2 + (y - b)\<^sup>2 + (z - c)\<^sup>2)"
  let ?d = "mesh_dists (a, b, c) mesh"
  have rng: "\<forall>v \<in> set vs0. v < length mesh"
    using assms unfolding get_closest_None_Inr_iff by blast
  then have nth: "\<And>v. v \<in> set vs0 \<Longrightarrow> ?d ! v = ?f (mesh ! v)"
    by (simp add: mesh_dists_nth)
  from get_closest_max_dist_dists [OF assms, of md] obtain cen where
    run: "get_closest ap (a, b, c) mesh (Some md) = Inr (cen, filter (\<lambda>v. ?d ! v \<le> md) vs0)"
    by blast
  have "filter (\<lambda>v. ?d ! v \<le> md) vs0 = filter (\<lambda>v. ?f (mesh ! v) \<le> md) vs0"
    by (rule filter_cong) (simp_all add: nth)
  with run have run': "get_closest ap (a, b, c) mesh (Some md)
      = Inr (cen, filter (\<lambda>v. ?f (mesh ! v) \<le> md) vs0)"
    by simp
  moreover have "\<forall>v \<in> set vs0. md < ?f (mesh ! v)
      \<longrightarrow> v \<notin> set (filter (\<lambda>v. ?f (mesh ! v) \<le> md) vs0)"
    by auto
  moreover have "(\<forall>v \<in> set vs0. md < ?f (mesh ! v))
      \<longrightarrow> filter (\<lambda>v. ?f (mesh ! v) \<le> md) vs0 = []"
    by (auto simp: filter_empty_conv)
  ultimately show ?thesis by blast
qed

theorem get_closest_max_dist_witness:
  "get_closest np_argpartition (4, 0, 0) [(0, 0, 0), (4, 3, 0), (2, 0, 0)] None
     = Inr (Finite (2, 0, 0), [2]) \<and>
   (\<exists>cen. get_closest np_argpartition (4, 0, 0) [(0, 0, 0), (4, 3, 0), (2, 0, 0)] (Some 1)
            = Inr (cen, [])) \<and>
   (\<exists>cen. get_closest np_argpartition (4, 0, 0) [(0, 0, 0), (4, 3, 0), (2, 0, 0)] (Some (5 / 2))
            = Inr (cen, [2]))"
proof -
  have a: "\<exists>cen. get_closest np_argpartition (4, 0, 0) [(0, 0, 0), (4, 3, 0), (2, 0, 0)] (Some 1)
            = Inr (cen, [])"
    using get_closest_max_dist [OF get_closest_example2, of 1] by simp
  have b: "\<exists>cen. get_closest np_argpartition (4, 0, 0) [(0, 0, 0), (4, 3, 0), (2, 0, 0)]
               (Some (5 / 2)) = Inr (cen, [2])"
    using get_closest_max_dist [OF get_closest_example2, of "5 / 2"] by simp
  from get_closest_example2 a b show ?thesis by blast
qed

text \<open>
  Claim C9: when the distance filter removes every selected vertex, \<open>get_closest\<close> raises
  nothing: it returns the empty index set together with the mean of no rows, which is
  not-a-number.
\<close>

theorem get_closest_all_filtered:
  assumes "get_closest ap init_pos mesh None = Inr (c0, vs0)"
    and "\<forall>v \<in> set vs0. md < mesh_dists init_pos mesh ! v"
  shows "get_closest ap init_pos mesh (Some md) = Inr (NotANumber, [])"
proof -
  let ?d = "mesh_dists init_pos mesh"
  from assms(1) obtain p where p: "ap ?d (cluster_size (length mesh)) = Inr p"
    and vs0: "vs0 = take (cluster_size (length mesh)) p"
    and rng: "\<forall>i \<in> set vs0. i < length mesh"
    unfolding get_closest_None_Inr_iff by blast
  have "filter (\<lambda>v. ?d ! v \<le> md) vs0 = []"
    using assms(2) by (auto simp: filter_empty_conv)
  moreover have "mean_axis0 (map (\<lambda>i. mesh ! i) []) = NotANumber"
    by (simp add: mean_axis0_def)
  ultimately show ?thesis
    unfolding get_closest_Some_Inr_iff using p vs0 rng by auto
qed

theorem get_closest_all_filtered_witness:
  "get_closest np_argpartition (0, 0, 0) [(3, 0, 0), (0, 2, 0), (1, 0, 0)] None
     = Inr (Finite (1, 0, 0), [2]) \<and>
   1 / 2 < mesh_dists (0, 0, 0) [(3, 0, 0), (0, 2, 0), (1, 0, 0)] ! 2 \<and>
   get_closest np_argpartition (0, 0, 0) [(3, 0, 0), (0, 2, 0), (1, 0, 0)] (Some (1 / 2))
     = Inr (NotANumber, [])"
proof -
  have d: "1 / 2 < mesh_dists (0, 0, 0) [(3, 0, 0), (0, 2, 0), (1, 0, 0)] ! 2"
    by (simp add: d_example)
  then have h: "\<forall>v \<in> set [2::nat]. 1 / 2 < mesh_dists (0, 0, 0) [(3, 0, 0), (0, 2, 0), (1, 0, 0)] ! v"
    by simp
  from get_closest_all_filtered [OF get_closest_example h] get_closest_example d
  show ?thesis by blast
qed

subsection \<open>Claims about the velocity controller\<close>

lemma clip_bounds: "lo \<le> hi \<Longrightarrow> lo \<le> clip a lo hi \<and> clip a lo hi \<le> hi"
  by (simp add: clip_def)

text \<open>
  Claim C4: for every velocity of the anchor and every target velocity,
  \<open>command_anchor_velocity\<close> requests the force \<open>Kd * (target - current)\<close> with each axis
  clamped to \<open>[-Fmax, Fmax]\<close>, where \<open>Kd = 50\<close> and \<open>Fmax = 10\<close>; no component of the
  requested force exceeds \<open>Fmax\<close> in absolute value.
\<close>

theorem command_anchor_velocity_force:
  assumes "bodies s a = Some b" and "linearVelocity b = (vx, vy, vz)"
  shows "\<exists>fx fy fz.
           command_anchor_velocity s a (tx, ty, tz)
             = (Inr (), s\<lparr>externalForces :=
                           externalForces s @ [(a, - 1, (fx, fy, fz), (0, 0, 0), LINK_FRAME)]\<rparr>) \<and>
           fx = min (max (50 * (tx - vx)) (- 10)) 10 \<and>
           fy = min (max (50 * (ty - vy)) (- 10)) 10 \<and>
           fz = min (max (50 * (tz - vz)) (- 10)) 10 \<and>
           \<bar>fx\<bar> \<le> CTRL_MAX_FORCE \<and> \<bar>fy\<bar> \<le> CTRL_MAX_FORCE \<and> \<bar>fz\<bar> \<le> CTRL_MAX_FORCE"
proof -
  let ?f = "\<lambda>t v. min (max (50 * (t - v)) (- 10)) (10::real)"
  have run: "command_anchor_velocity s a (tx, ty, tz)
      = (Inr (), s\<lparr>externalForces := externalForces s @
            [(a, - 1, (?f tx vx, ?f ty vy, ?f tz vz), (0, 0, 0), LINK_FRAME)]\<rparr>)"
    using assms
    by (simp add: command_anchor_velocity_def getBaseVelocity_def applyExternalForce_def
        clip_def CTRL_PD_KD_def CTRL_MAX_FORCE_def)
  have b: "\<bar>?f t v\<bar> \<le> CTRL_MAX_FORCE" for t v
    unfolding CTRL_MAX_FORCE_def by (simp add: abs_le_iff min_def max_def)
  from run b show ?thesis by blast
qed

theorem command_anchor_velocity_force_witness:
  "bodies sim0 1 = Some marker \<and> linearVelocity marker = (1, 0, 0) \<and>
   command_anchor_velocity sim0 1 (0, 0, 0)
     = (Inr (), sim0\<lparr>externalForces := [(1, - 1, (- 10, 0, 0), (0, 0, 0), LINK_FRAME)]\<rparr>)"
proof -
  have h1: "bodies sim0 1 = Some marker" by (simp add: sim0_def)
  have h2: "linearVelocity marker = (1, 0, 0)" by (simp add: marker_def)
  have e: "externalForces sim0 = []" by (simp add: sim0_def)
  from command_anchor_velocity_force [OF h1 h2, of 0 0 0] h1 h2 e show ?thesis
    by auto
qed

subsection \<open>Claims about create\_anchor\_geom and pin\_fixed\<close>

lemma create_anchor_geom_eq:
  "create_anchor_geom s pos mass radius rgba uc =
     (nextBodyId s,
      s\<lparr>visualShapes := visualShapes s @ [(radius, rgba)],
        collisionShapes := (if 0 < mass \<and> uc then collisionShapes s @ [radius]
                            else collisionShapes s),
        bodies := (bodies s)(nextBodyId s \<mapsto>
           \<lparr>baseMass = mass, basePosition = pos,
            baseCollisionShapeIndex = (if 0 < mass \<and> uc then int (length (collisionShapes s))
                                       else - 1),
            baseVisualShapeIndex = int (length (visualShapes s)),
            useMaximalCoordinates = True, rgbaColor = rgba, linearVelocity = (0, 0, 0)\<rparr>),
        nextBodyId := Suc (nextBodyId s)\<rparr>)"
  by (simp add: create_anchor_geom_def createVisualShape_def createCollisionShape_def
      createMultiBody_def)

lemma createSoftBodyAnchor_frame:
  assumes "createSoftBodyAnchor s d v a l = (r, s')"
  shows "bodies s' = bodies s \<and> nextBodyId s' = nextBodyId s \<and>
         collisionShapes s' = collisionShapes s \<and> meshes s' = meshes s \<and>
         visualShapes s' = visualShapes s"
  using assms by (auto simp: createSoftBodyAnchor_def split: option.splits if_splits)

lemma pin_vertices_bodies:
  "pin_vertices s d vp vids = (r, s') \<Longrightarrow>
     nextBodyId s \<le> nextBodyId s' \<and> collisionShapes s' = collisionShapes s \<and>
     (\<forall>i < nextBodyId s. bodies s' i = bodies s i) \<and>
     (\<forall>i. nextBodyId s \<le> i \<and> i < nextBodyId s' \<longrightarrow>
        (\<exists>b. bodies s' i = Some b \<and> baseMass b = 0 \<and> baseCollisionShapeIndex b = - 1))"
proof (induction vids arbitrary: s)
  case Nil
  then show ?case by auto
next
  case (Cons v rest)
  show ?case
  proof (cases "v < length vp")
    case False
    with Cons.prems show ?thesis by auto
  next
    case True
    obtain s1 where g: "create_anchor_geom s (Finite (vp ! v)) 0 (2 / 1000) ANCHOR_RGBA_PEACH True
        = (nextBodyId s, s1)"
      by (simp add: create_anchor_geom_eq)
    have s1: "nextBodyId s1 = Suc (nextBodyId s)" "collisionShapes s1 = collisionShapes s"
      "\<forall>i < nextBodyId s. bodies s1 i = bodies s i"
      "\<exists>b. bodies s1 (nextBodyId s) = Some b \<and> baseMass b = 0 \<and> baseCollisionShapeIndex b = - 1"
      using g by (auto simp: create_anchor_geom_eq)
    obtain r2 s2 where c: "createSoftBodyAnchor s1 d v (nextBodyId s) (- 1) = (r2, s2)"
      by (cases "createSoftBodyAnchor s1 d v (nextBodyId s) (- 1)") auto
    note f = createSoftBodyAnchor_frame [OF c]
    show ?thesis
    proof (cases r2)
      case (Inl e)
      with Cons.prems True g c have "s' = s2" by simp
      with f s1 show ?thesis by (auto simp: less_Suc_eq_le)
    next
      case (Inr uid)
      with Cons.prems True g c have "pin_vertices s2 d vp rest = (r, s')" by simp
      from Cons.IH [OF this] f s1
      have ih: "Suc (nextBodyId s) \<le> nextBodyId s'" "collisionShapes s' = collisionShapes s"
        "\<forall>i < Suc (nextBodyId s). bodies s' i = bodies s1 i"
        "\<forall>i. Suc (nextBodyId s) \<le> i \<and> i < nextBodyId s' \<longrightarrow>
           (\<exists>b. bodies s' i = Some b \<and> baseMass b = 0 \<and> baseCollisionShapeIndex b = - 1)"
        by simp_all
      have new: "\<exists>b. bodies s' i = Some b \<and> baseMass b = 0 \<and> baseCollisionShapeIndex b = - 1"
        if "nextBodyId s \<le> i" "i < nextBodyId s'" for i
      proof (cases "i = nextBodyId s")
        case True
        then show ?thesis using ih(3) s1(4) by simp
      next
        case False
        with that have "Suc (nextBodyId s) \<le> i" by simp
        with that ih(4) show ?thesis by blast
      qed
      have old: "\<forall>i < nextBodyId s. bodies s' i = bodies s i"
        using ih(3) s1(3) by simp
      from ih(1,2) old new show ?thesis by simp
    qed
  qed
qed

lemma pin_fixed_bodies:
  assumes "pin_fixed s d vids = (r, s')"
  shows "collisionShapes s' = collisionShapes s \<and>
     (\<forall>i. nextBodyId s \<le> i \<and> i < nextBodyId s' \<longrightarrow>
        (\<exists>b. bodies s' i = Some b \<and> baseMass b = 0 \<and> baseCollisionShapeIndex b = - 1))"
proof (cases "meshes s d")
  case None
  with assms have "s' = s" by (simp add: pin_fixed_def get_mesh_data_def)
  then show ?thesis by auto
next
  case (Some m)
  with assms have "pin_vertices s d m vids = (r, s')"
    by (simp add: pin_fixed_def get_mesh_data_def)
  from pin_vertices_bodies [OF this] show ?thesis by blast
qed

lemma pin_fixed_example:
  "nextBodyId (snd (pin_fixed sim0 0 [1])) = 3 \<and> fst (pin_fixed sim0 0 [1]) = Inr ()"
  by (simp add: pin_fixed_def get_mesh_data_def sim0_def create_anchor_geom_eq
      createSoftBodyAnchor_def)

text \<open>
  Claim C10: the body \<open>create_anchor_geom\<close> creates has a collision shape if and only if
  its mass is strictly positive and \<open>use_collision\<close> holds (otherwise its collision shape
  index is -1 and no collision shape is created); in particular a body of mass zero has
  none whatever \<open>use_collision\<close> is, and every body \<open>pin_fixed\<close> creates has mass zero and
  no collision shape.
\<close>

theorem create_anchor_geom_collision:
  "(\<exists>b. bodies (snd (create_anchor_geom s pos mass radius rgba use_collision))
            (fst (create_anchor_geom s pos mass radius rgba use_collision)) = Some b \<and>
        baseMass b = mass \<and>
        (0 \<le> baseCollisionShapeIndex b \<longleftrightarrow> 0 < mass \<and> use_collision) \<and>
        (baseCollisionShapeIndex b = - 1 \<longleftrightarrow> \<not> (0 < mass \<and> use_collision)) \<and>
        (mass = 0 \<longrightarrow> baseCollisionShapeIndex b = - 1)) \<and>
   (collisionShapes (snd (create_anchor_geom s pos mass radius rgba use_collision))
      = collisionShapes s \<longleftrightarrow> \<not> (0 < mass \<and> use_collision)) \<and>
   collisionShapes (snd (pin_fixed s deform_id vert_ids)) = collisionShapes s \<and>
   (\<forall>i. nextBodyId s \<le> i \<and> i < nextBodyId (snd (pin_fixed s deform_id vert_ids)) \<longrightarrow>
      (\<exists>b. bodies (snd (pin_fixed s deform_id vert_ids)) i = Some b \<and>
           baseMass b = 0 \<and> baseCollisionShapeIndex b = - 1))"
proof -
  have geom: "\<exists>b. bodies (snd (create_anchor_geom s pos mass radius rgba use_collision))
            (fst (create_anchor_geom s pos mass radius rgba use_collision)) = Some b \<and>
        baseMass b = mass \<and>
        (0 \<le> baseCollisionShapeIndex b \<longleftrightarrow> 0 < mass \<and> use_collision) \<and>
        (baseCollisionShapeIndex b = - 1 \<longleftrightarrow> \<not> (0 < mass \<and> use_collision)) \<and>
        (mass = 0 \<longrightarrow> baseCollisionShapeIndex b = - 1)"
    by (simp add: create_anchor_geom_eq)
  have shapes: "collisionShapes (snd (create_anchor_geom s pos mass radius rgba use_collision))
      = collisionShapes s \<longleftrightarrow> \<not> (0 < mass \<and> use_collision)"
    by (simp add: create_anchor_geom_eq)
  obtain r s' where p: "pin_fixed s deform_id vert_ids = (r, s')"
    by (cases "pin_fixed s deform_id vert_ids") auto
  from pin_fixed_bodies [OF p] p
  have pins: "collisionShapes (snd (pin_fixed s deform_id vert_ids)) = collisionShapes s \<and>
   (\<forall>i. nextBodyId s \<le> i \<and> i < nextBodyId (snd (pin_fixed s deform_id vert_ids)) \<longrightarrow>
      (\<exists>b. bodies (snd (pin_fixed s deform_id vert_ids)) i = Some b \<and>
           baseMass b = 0 \<and> baseCollisionShapeIndex b = - 1))"
    by simp
  from geom shapes pins show ?thesis by blast
qed

theorem create_anchor_geom_collision_witness:
  "nextBodyId sim0 \<le> 2 \<and> 2 < nextBodyId (snd (pin_fixed sim0 0 [1])) \<and>
   (\<exists>b. bodies (snd (pin_fixed sim0 0 [1])) 2 = Some b \<and>
        baseMass b = 0 \<and> baseCollisionShapeIndex b = - 1)"
proof -
  have h: "nextBodyId sim0 \<le> 2 \<and> 2 < nextBodyId (snd (pin_fixed sim0 0 [1]))"
    using pin_fixed_example by (simp add: sim0_def)
  from create_anchor_geom_collision [of sim0 "Finite (0, 0, 0)" 0 1 "(1, 1, 1, 1)" True 0 "[1]"]
  have "\<forall>i. nextBodyId sim0 \<le> i \<and> i < nextBodyId (snd (pin_fixed sim0 0 [1])) \<longrightarrow>
      (\<exists>b. bodies (snd (pin_fixed sim0 0 [1])) i = Some b \<and>
           baseMass b = 0 \<and> baseCollisionShapeIndex b = - 1)"
    by (elim conjE)
  with h show ?thesis by blast
qed

subsection \<open>Facts about binding and releasing\<close>

lemma createSoftBodyAnchor_ok:
  assumes "bodies s a \<noteq> None" "meshes s d = Some m" "v < length m"
  shows "createSoftBodyAnchor s d v a l =
           (Inr (nextConstraintId s),
            s\<lparr>constraints := constraints s @
                 [(nextConstraintId s,
                   \<lparr>softBodyBodyUniqueId = d, nodeIndex = v, bodyUniqueId = a, linkIndex = l\<rparr>)],
              nextConstraintId := Suc (nextConstraintId s)\<rparr>)"
  using assms by (simp add: createSoftBodyAnchor_def)

lemma attach_vertices_ok:
  assumes "bodies s a \<noteq> None" "meshes s d = Some m" "\<forall>v \<in> set vs. v < length m"
  shows "\<exists>s'. attach_vertices s a vs d = (Inr (), s') \<and>
           constraints s' = constraints s @
             zip [nextConstraintId s ..< nextConstraintId s + length vs]
                 (map (\<lambda>v. \<lparr>softBodyBodyUniqueId = d, nodeIndex = v, bodyUniqueId = a,
                              linkIndex = - 1\<rparr>) vs) \<and>
           nextConstraintId s' = nextConstraintId s + length vs \<and>
           bodies s' = bodies s \<and> meshes s' = meshes s \<and> nextBodyId s' = nextBodyId s \<and>
           visualShapes s' = visualShapes s \<and> collisionShapes s' = collisionShapes s \<and>
           externalForces s' = externalForces s"
  using assms
proof (induction vs arbitrary: s)
  case Nil
  then show ?case by simp
next
  case (Cons v vs)
  let ?c = "\<lambda>v. \<lparr>softBodyBodyUniqueId = d, nodeIndex = v, bodyUniqueId = a, linkIndex = - 1\<rparr>"
  let ?n = "nextConstraintId s"
  let ?s1 = "s\<lparr>constraints := constraints s @ [(?n, ?c v)], nextConstraintId := Suc ?n\<rparr>"
  have step: "createSoftBodyAnchor s d v a (- 1) = (Inr ?n, ?s1)"
    using Cons.prems by (intro createSoftBodyAnchor_ok [where m = m]) simp_all
  have "bodies ?s1 a \<noteq> None" "meshes ?s1 d = Some m" "\<forall>v \<in> set vs. v < length m"
    using Cons.prems by simp_all
  from Cons.IH [OF this] obtain s' where
    s': "attach_vertices ?s1 a vs d = (Inr (), s')"
    "constraints s' = constraints ?s1 @ zip [nextConstraintId ?s1 ..< nextConstraintId ?s1 + length vs]
        (map ?c vs)"
    "nextConstraintId s' = nextConstraintId ?s1 + length vs"
    "bodies s' = bodies ?s1" "meshes s' = meshes ?s1" "nextBodyId s' = nextBodyId ?s1"
    "visualShapes s' = visualShapes ?s1" "collisionShapes s' = collisionShapes ?s1"
    "externalForces s' = externalForces ?s1"
    by blast
  have run: "attach_vertices s a (v # vs) d = (Inr (), s')"
    using step s'(1) by simp
  have upt: "[?n ..< ?n + length (v # vs)] = ?n # [Suc ?n ..< Suc ?n + length vs]"
    by (simp add: upt_conv_Cons del: upt_Suc)
  have "constraints s' = constraints s @
      zip [?n ..< ?n + length (v # vs)] (map ?c (v # vs))"
    unfolding upt using s'(2) by simp
  with run s'(3-9) show ?case by simp
qed

lemma attach_anchor_ok:
  assumes "bodies s a = Some b" "meshes s d = Some m" "\<forall>v \<in> set vs. v < length m"
  shows "\<exists>s'. attach_anchor s a vs d cc = (Inr (), s') \<and>
           constraints s' = constraints s @
             zip [nextConstraintId s ..< nextConstraintId s + length vs]
                 (map (\<lambda>v. \<lparr>softBodyBodyUniqueId = d, nodeIndex = v, bodyUniqueId = a,
                              linkIndex = - 1\<rparr>) vs)"
proof -
  let ?s1 = "if cc then s\<lparr>bodies := (bodies s)(a \<mapsto> b\<lparr>rgbaColor := ANCHOR_RGBA_ACTIVE\<rparr>)\<rparr> else s"
  have run: "attach_anchor s a vs d cc = attach_vertices ?s1 a vs d"
    using assms by (simp add: attach_anchor_def changeVisualShape_def)
  have "bodies ?s1 a \<noteq> None" "meshes ?s1 d = Some m" "\<forall>v \<in> set vs. v < length m"
    using assms by simp_all
  from attach_vertices_ok [OF this] show ?thesis
    unfolding run by (cases cc) auto
qed

lemma release_anchor_constraints:
  "constraints (snd (release_anchor s a)) = filter (\<lambda>(uid, c). uid \<noteq> a) (constraints s)"
  by (simp add: release_anchor_def removeConstraint_def changeVisualShape_def
      split: option.splits)

lemma release_anchor_color:
  "bodies s a \<noteq> None \<Longrightarrow> body_color (snd (release_anchor s a)) a = Some ANCHOR_RGBA_INACTIVE"
  by (auto simp: release_anchor_def removeConstraint_def changeVisualShape_def body_color_def)

lemma length_filter_eq_distinct:
  "distinct xs \<Longrightarrow> length (filter (\<lambda>x. x = a) xs) \<le> 1"
  by (induction xs) (auto simp: filter_empty_conv)

lemma length_filter_fst_neq:
  assumes "distinct (map fst zs)"
  shows "length zs - 1 \<le> length (filter (\<lambda>(u, c). u \<noteq> a) zs)"
proof -
  have "length (filter (\<lambda>(u, c). u = a) zs) = length (filter (\<lambda>u. u = a) (map fst zs))"
    by (induction zs) auto
  then have "length (filter (\<lambda>(u, c). u = a) zs) \<le> 1"
    using length_filter_eq_distinct [OF assms, of a] by simp
  moreover have "length (filter (\<lambda>(u, c). u \<noteq> a) zs) + length (filter (\<lambda>(u, c). u = a) zs)
      = length zs"
    by (induction zs) auto
  ultimately show ?thesis by linarith
qed

lemma attach_release_remaining:
  assumes "bodies s a = Some b" "meshes s d = Some m" "\<forall>v \<in> set vs. v < length m"
  shows "length vs - 1
           \<le> length (anchor_constraints
                       (snd (release_anchor (snd (attach_anchor s a vs d cc)) a)) a)"
proof -
  let ?c = "\<lambda>v. \<lparr>softBodyBodyUniqueId = d, nodeIndex = v, bodyUniqueId = a, linkIndex = - 1\<rparr>"
  let ?Z = "zip [nextConstraintId s ..< nextConstraintId s + length vs] (map ?c vs)"
  from attach_anchor_ok [OF assms, of cc] obtain s' where
    s': "attach_anchor s a vs d cc = (Inr (), s')" "constraints s' = constraints s @ ?Z"
    by blast
  have all_a: "\<forall>z \<in> set ?Z. bodyUniqueId (snd z) = a"
    by (auto dest!: set_zip_rightD)
  then have keep: "filter (\<lambda>(uid, c). bodyUniqueId c = a) (filter (\<lambda>(uid, c). uid \<noteq> a) ?Z)
      = filter (\<lambda>(uid, c). uid \<noteq> a) ?Z"
    by (intro filter_True) auto
  have "map fst ?Z = [nextConstraintId s ..< nextConstraintId s + length vs]"
    by simp
  then have "distinct (map fst ?Z)" by (simp only: distinct_upt)
  from length_filter_fst_neq [OF this, of a]
  have "length vs - 1 \<le> length (filter (\<lambda>(uid, c). uid \<noteq> a) ?Z)" by simp
  moreover have "anchor_constraints (snd (release_anchor s' a)) a
      = filter (\<lambda>(uid, c). bodyUniqueId c = a) (filter (\<lambda>(uid, c). uid \<noteq> a) (constraints s))
        @ filter (\<lambda>(uid, c). uid \<noteq> a) ?Z"
    unfolding anchor_constraints_def release_anchor_constraints s'(2) filter_append keep ..
  ultimately show ?thesis using s'(1) by simp
qed

lemma sim0_fields:
  "bodies sim0 1 = Some marker" "meshes sim0 0 = Some [(0, 0, 0), (1, 0, 0)]"
  "constraints sim0 = []" "nextConstraintId sim0 = 1"
  by (simp_all add: sim0_def)

lemma attach_example:
  "attach_anchor sim0 1 [0, 1] 0 False =
     (Inr (),
      sim0\<lparr>constraints :=
             [(1, \<lparr>softBodyBodyUniqueId = 0, nodeIndex = 0, bodyUniqueId = 1, linkIndex = - 1\<rparr>),
              (2, \<lparr>softBodyBodyUniqueId = 0, nodeIndex = 1, bodyUniqueId = 1, linkIndex = - 1\<rparr>)],
           nextConstraintId := 3\<rparr>)"
  by (simp add: attach_anchor_def createSoftBodyAnchor_def sim0_def)

lemma release_anchor_keeps_bodies:
  "dom (bodies (snd (release_anchor s a))) = dom (bodies s) \<and>
   (\<forall>i b. bodies s i = Some b \<longrightarrow>
      bodies (snd (release_anchor s a)) i
        = Some (if i = a then b\<lparr>rgbaColor := ANCHOR_RGBA_INACTIVE\<rparr> else b)) \<and>
   nextBodyId (snd (release_anchor s a)) = nextBodyId s \<and>
   meshes (snd (release_anchor s a)) = meshes s \<and>
   visualShapes (snd (release_anchor s a)) = visualShapes s \<and>
   collisionShapes (snd (release_anchor s a)) = collisionShapes s"
  by (cases "bodies s a")
     (auto simp: release_anchor_def removeConstraint_def changeVisualShape_def)

lemma attach_example_recolor:
  "attach_anchor sim0 1 [0, 1] 0 True =
     (Inr (),
      sim0\<lparr>bodies := (bodies sim0)(1 \<mapsto> marker\<lparr>rgbaColor := ANCHOR_RGBA_ACTIVE\<rparr>),
           constraints :=
             [(1, \<lparr>softBodyBodyUniqueId = 0, nodeIndex = 0, bodyUniqueId = 1, linkIndex = - 1\<rparr>),
              (2, \<lparr>softBodyBodyUniqueId = 0, nodeIndex = 1, bodyUniqueId = 1, linkIndex = - 1\<rparr>)],
           nextConstraintId := 3\<rparr>)"
  by (simp add: attach_anchor_def changeVisualShape_def createSoftBodyAnchor_def sim0_def)

lemma geom_example: "fst (create_anchor_geom sim0 pos mass radius rgba uc) = 2"
  by (simp add: create_anchor_geom_eq sim0_def)

lemma mean_axis0_rows:
  "rows \<noteq> [] \<Longrightarrow>
     mean_axis0 (map (\<lambda>v. mesh ! v) rows)
       = Finite (sum_list (map (\<lambda>v. fst (mesh ! v)) rows) / real (length rows),
                 sum_list (map (\<lambda>v. fst (snd (mesh ! v))) rows) / real (length rows),
                 sum_list (map (\<lambda>v. snd (snd (mesh ! v))) rows) / real (length rows))"
  by (simp add: mean_axis0_def comp_def)

lemma create_anchor_preset:
  assumes "use_preset" "preset_vertices = Some presets" "anchor_idx < length presets"
    "\<forall>v \<in> set (presets ! anchor_idx). v < length mesh"
  shows "create_anchor ap s anchor_pos anchor_idx preset_vertices mesh mass radius rgba
          use_preset use_closest
        = (Inr (fst (create_anchor_geom s (mean_axis0 (map (\<lambda>v. mesh ! v) (presets ! anchor_idx)))
                       mass radius rgba True),
                mean_axis0 (map (\<lambda>v. mesh ! v) (presets ! anchor_idx)),
                Some (presets ! anchor_idx)),
           snd (create_anchor_geom s (mean_axis0 (map (\<lambda>v. mesh ! v) (presets ! anchor_idx)))
                  mass radius rgba True))"
  using assms by (simp add: create_anchor_def index_array_def split: prod.splits)

lemma d_example3: "mesh_dists (10, 0, 0) [(0, 0, 0), (2, 0, 0), (10, 0, 0)] = [10, 8, 0]"
  by (simp add: mesh_dists_def)

lemma ap_example3: "np_argpartition [10, 8, 0] 1 = Inr [2, 1, 0]"
  by (simp add: np_argpartition_def upt3)

lemma cs_example3: "cluster_size (length [(0, 0, 0), (2, 0, 0), (10, 0, 0) :: vec3]) = 1"
  by (simp add: cluster_size_def)

lemma get_closest_example3:
  "get_closest np_argpartition (10, 0, 0) [(0, 0, 0), (2, 0, 0), (10, 0, 0)] None
     = Inr (Finite (10, 0, 0), [2])"
  by (simp only: get_closest_None cs_example3 d_example3 ap_example3)
     (simp add: index_array_def mean_axis0_def)

subsection \<open>Claims about create\_anchor\<close>

text \<open>
  Claim C5: \<open>create_anchor\<close> resolves the vertex selection in this order. With
  \<open>use_preset\<close> and a preset list given, it returns the list of slot \<open>anchor_idx\<close> as it is
  and the position is the centroid of those vertices of \<open>mesh\<close>: the sum of their
  coordinates divided by their number, axis by axis. Otherwise, with \<open>use_closest\<close>, the
  position and the vertices are those of \<open>get_closest\<close> called with the given position and
  no \<open>max_dist\<close> (and its error, if it raises). Otherwise no vertices are returned
  (\<open>None\<close>) and the position is the given one. Whenever the call returns, the marker it
  returns is a body of the simulator at the returned position, with the requested mass and
  colour.
\<close>

theorem create_anchor_priority:
  "(use_preset \<and> preset_vertices = Some presets \<and> anchor_idx < length presets \<and>
      presets ! anchor_idx \<noteq> [] \<and>
      (\<forall>v \<in> set (presets ! anchor_idx). v < length mesh) \<longrightarrow>
      (let vs = presets ! anchor_idx;
           pos = Finite (sum_list (map (\<lambda>v. fst (mesh ! v)) vs) / real (length vs),
                         sum_list (map (\<lambda>v. fst (snd (mesh ! v))) vs) / real (length vs),
                         sum_list (map (\<lambda>v. snd (snd (mesh ! v))) vs) / real (length vs))
       in create_anchor ap s anchor_pos anchor_idx preset_vertices mesh mass radius rgba
              use_preset use_closest
            = (Inr (fst (create_anchor_geom s pos mass radius rgba True), pos, Some vs),
               snd (create_anchor_geom s pos mass radius rgba True)))) \<and>
   (\<not> (use_preset \<and> preset_vertices \<noteq> None) \<and> use_closest \<longrightarrow>
      (case get_closest ap anchor_pos mesh None of
         Inl e \<Rightarrow>
           create_anchor ap s anchor_pos anchor_idx preset_vertices mesh mass radius rgba
               use_preset use_closest = (Inl e, s)
       | Inr (pos, vs) \<Rightarrow>
           create_anchor ap s anchor_pos anchor_idx preset_vertices mesh mass radius rgba
               use_preset use_closest
             = (Inr (fst (create_anchor_geom s pos mass radius rgba True), pos, Some vs),
                snd (create_anchor_geom s pos mass radius rgba True)))) \<and>
   (\<not> (use_preset \<and> preset_vertices \<noteq> None) \<and> \<not> use_closest \<longrightarrow>
      create_anchor ap s anchor_pos anchor_idx preset_vertices mesh mass radius rgba
          use_preset use_closest
        = (Inr (fst (create_anchor_geom s (Finite anchor_pos) mass radius rgba True),
                Finite anchor_pos, None),
           snd (create_anchor_geom s (Finite anchor_pos) mass radius rgba True))) \<and>
   (\<forall>anchorGeomId pos vs s'.
      create_anchor ap s anchor_pos anchor_idx preset_vertices mesh mass radius rgba
          use_preset use_closest = (Inr (anchorGeomId, pos, vs), s') \<longrightarrow>
      (\<exists>b. bodies s' anchorGeomId = Some b \<and> basePosition b = pos \<and> baseMass b = mass \<and>
           rgbaColor b = rgba))"
proof (intro conjI impI allI)
  assume h: "use_preset \<and> preset_vertices = Some presets \<and> anchor_idx < length presets \<and>
      presets ! anchor_idx \<noteq> [] \<and>
      (\<forall>v \<in> set (presets ! anchor_idx). v < length mesh)"
  then have run: "create_anchor ap s anchor_pos anchor_idx preset_vertices mesh mass radius rgba
          use_preset use_closest
        = (Inr (fst (create_anchor_geom s (mean_axis0 (map (\<lambda>v. mesh ! v) (presets ! anchor_idx)))
                       mass radius rgba True),
                mean_axis0 (map (\<lambda>v. mesh ! v) (presets ! anchor_idx)),
                Some (presets ! anchor_idx)),
           snd (create_anchor_geom s (mean_axis0 (map (\<lambda>v. mesh ! v) (presets ! anchor_idx)))
                  mass radius rgba True))"
    by (intro create_anchor_preset) simp_all
  from h have ne: "presets ! anchor_idx \<noteq> []" by simp
  show "let vs = presets ! anchor_idx;
           pos = Finite (sum_list (map (\<lambda>v. fst (mesh ! v)) vs) / real (length vs),
                         sum_list (map (\<lambda>v. fst (snd (mesh ! v))) vs) / real (length vs),
                         sum_list (map (\<lambda>v. snd (snd (mesh ! v))) vs) / real (length vs))
       in create_anchor ap s anchor_pos anchor_idx preset_vertices mesh mass radius rgba
              use_preset use_closest
            = (Inr (fst (create_anchor_geom s pos mass radius rgba True), pos, Some vs),
               snd (create_anchor_geom s pos mass radius rgba True))"
    unfolding Let_def run mean_axis0_rows [OF ne] ..
next
  assume h: "\<not> (use_preset \<and> preset_vertices \<noteq> None) \<and> use_closest"
  then have sel: "(if use_preset then preset_vertices else None) = None" by auto
  show "case get_closest ap anchor_pos mesh None of
         Inl e \<Rightarrow>
           create_anchor ap s anchor_pos anchor_idx preset_vertices mesh mass radius rgba
               use_preset use_closest = (Inl e, s)
       | Inr (pos, vs) \<Rightarrow>
           create_anchor ap s anchor_pos anchor_idx preset_vertices mesh mass radius rgba
               use_preset use_closest
             = (Inr (fst (create_anchor_geom s pos mass radius rgba True), pos, Some vs),
                snd (create_anchor_geom s pos mass radius rgba True))"
    using h unfolding create_anchor_def sel
    by (simp split: sum.splits prod.splits)
next
  assume h: "\<not> (use_preset \<and> preset_vertices \<noteq> None) \<and> \<not> use_closest"
  then have sel: "(if use_preset then preset_vertices else None) = None" by auto
  show "create_anchor ap s anchor_pos anchor_idx preset_vertices mesh mass radius rgba
          use_preset use_closest
        = (Inr (fst (create_anchor_geom s (Finite anchor_pos) mass radius rgba True),
                Finite anchor_pos, None),
           snd (create_anchor_geom s (Finite anchor_pos) mass radius rgba True))"
    using h unfolding create_anchor_def sel
    by (simp split: prod.splits)
next
  fix anchorGeomId pos vs s'
  assume "create_anchor ap s anchor_pos anchor_idx preset_vertices mesh mass radius rgba
          use_preset use_closest = (Inr (anchorGeomId, pos, vs), s')"
  then have "(anchorGeomId, s') = create_anchor_geom s pos mass radius rgba True"
    unfolding create_anchor_def by (auto split: sum.splits prod.splits)
  then show "\<exists>b. bodies s' anchorGeomId = Some b \<and> basePosition b = pos \<and> baseMass b = mass \<and>
           rgbaColor b = rgba"
    by (simp add: create_anchor_geom_eq)
qed

theorem create_anchor_priority_witness:
  "fst (create_anchor np_argpartition sim0 (10, 0, 0) 0 (Some [[0, 1]])
          [(0, 0, 0), (2, 0, 0), (10, 0, 0)] (1 / 10) (5 / 1000) (1, 0, 1, 1) True True)
     = Inr (2, Finite (1, 0, 0), Some [0, 1]) \<and>
   fst (create_anchor np_argpartition sim0 (10, 0, 0) 0 (Some [[0, 1]])
          [(0, 0, 0), (2, 0, 0), (10, 0, 0)] (1 / 10) (5 / 1000) (1, 0, 1, 1) False True)
     = Inr (2, Finite (10, 0, 0), Some [2]) \<and>
   fst (create_anchor np_argpartition sim0 (10, 0, 0) 0 None
          [(0, 0, 0), (2, 0, 0), (10, 0, 0)] (1 / 10) (5 / 1000) (1, 0, 1, 1) True True)
     = Inr (2, Finite (10, 0, 0), Some [2]) \<and>
   fst (create_anchor np_argpartition sim0 (10, 0, 0) 0 (Some [[0, 1]])
          [(0, 0, 0), (2, 0, 0), (10, 0, 0)] (1 / 10) (5 / 1000) (1, 0, 1, 1) False False)
     = Inr (2, Finite (10, 0, 0), None)"
proof -
  have a: "fst (create_anchor np_argpartition sim0 (10, 0, 0) 0 (Some [[0, 1]])
          [(0, 0, 0), (2, 0, 0), (10, 0, 0)] (1 / 10) (5 / 1000) (1, 0, 1, 1) True True)
     = Inr (2, Finite (1, 0, 0), Some [0, 1])"
    using create_anchor_priority [where use_preset = True and preset_vertices = "Some [[0, 1]]"
        and presets = "[[0, 1]]" and anchor_idx = 0 and mesh = "[(0, 0, 0), (2, 0, 0), (10, 0, 0)]"
        and ap = np_argpartition and s = sim0 and anchor_pos = "(10, 0, 0)" and mass = "1 / 10"
        and radius = "5 / 1000" and rgba = "(1, 0, 1, 1)" and use_closest = True]
    by (simp add: geom_example Let_def)
  have b: "fst (create_anchor np_argpartition sim0 (10, 0, 0) 0 (Some [[0, 1]])
          [(0, 0, 0), (2, 0, 0), (10, 0, 0)] (1 / 10) (5 / 1000) (1, 0, 1, 1) False True)
     = Inr (2, Finite (10, 0, 0), Some [2])"
    using create_anchor_priority [where use_preset = False and preset_vertices = "Some [[0, 1]]"
        and presets = "[[0, 1]]" and anchor_idx = 0 and mesh = "[(0, 0, 0), (2, 0, 0), (10, 0, 0)]"
        and ap = np_argpartition and s = sim0 and anchor_pos = "(10, 0, 0)" and mass = "1 / 10"
        and radius = "5 / 1000" and rgba = "(1, 0, 1, 1)" and use_closest = True]
    by (simp add: get_closest_example3 geom_example)
  have c: "fst (create_anchor np_argpartition sim0 (10, 0, 0) 0 None
          [(0, 0, 0), (2, 0, 0), (10, 0, 0)] (1 / 10) (5 / 1000) (1, 0, 1, 1) True True)
     = Inr (2, Finite (10, 0, 0), Some [2])"
    using create_anchor_priority [where use_preset = True and preset_vertices = None
        and presets = "[]" and anchor_idx = 0 and mesh = "[(0, 0, 0), (2, 0, 0), (10, 0, 0)]"
        and ap = np_argpartition and s = sim0 and anchor_pos = "(10, 0, 0)" and mass = "1 / 10"
        and radius = "5 / 1000" and rgba = "(1, 0, 1, 1)" and use_closest = True]
    by (simp add: get_closest_example3 geom_example)
  have d: "fst (create_anchor np_argpartition sim0 (10, 0, 0) 0 (Some [[0, 1]])
          [(0, 0, 0), (2, 0, 0), (10, 0, 0)] (1 / 10) (5 / 1000) (1, 0, 1, 1) False False)
     = Inr (2, Finite (10, 0, 0), None)"
    using create_anchor_priority [where use_preset = False and preset_vertices = "Some [[0, 1]]"
        and presets = "[[0, 1]]" and anchor_idx = 0 and mesh = "[(0, 0, 0), (2, 0, 0), (10, 0, 0)]"
        and ap = np_argpartition and s = sim0 and anchor_pos = "(10, 0, 0)" and mass = "1 / 10"
        and radius = "5 / 1000" and rgba = "(1, 0, 1, 1)" and use_closest = False]
    by (simp add: geom_example)
  from a b c d show ?thesis by blast
qed

subsection \<open>Claims about attach\_anchor and release\_anchor\<close>

text \<open>
  Claim C6 says that \<open>release_anchor\<close> removes every soft-body constraint of the anchor, so
  that after attach and release the anchor has no constraint left, and recolours the marker
  to the inactive colour. The recolouring holds (\<open>release_anchor_color\<close>). The removal does
  not: \<open>attach_anchor\<close> drops the constraint ids that \<^verbatim>\<open>createSoftBodyAnchor\<close> returns, and
  \<open>release_anchor\<close> hands the anchor's body id to \<^verbatim>\<open>removeConstraint\<close>, which removes the
  one constraint whose constraint id equals that number, if any
  (\<open>release_anchor_constraints\<close>). In the state \<open>sim0\<close>, attaching anchor 1 to the vertices 0
  and 1 creates the constraints 1 and 2; releasing anchor 1 removes constraint 1 and leaves
  constraint 2 binding vertex 1 to the anchor. In every state, attaching k vertices and then
  releasing leaves at least k - 1 of the new constraints (\<open>attach_release_remaining\<close>).
\<close>

theorem release_anchor_leaves_constraint:
  "anchor_constraints (snd (attach_anchor sim0 1 [0, 1] 0 False)) 1 =
     [(1, \<lparr>softBodyBodyUniqueId = 0, nodeIndex = 0, bodyUniqueId = 1, linkIndex = - 1\<rparr>),
      (2, \<lparr>softBodyBodyUniqueId = 0, nodeIndex = 1, bodyUniqueId = 1, linkIndex = - 1\<rparr>)] \<and>
   fst (release_anchor (snd (attach_anchor sim0 1 [0, 1] 0 False)) 1) = Inr () \<and>
   anchor_constraints (snd (release_anchor (snd (attach_anchor sim0 1 [0, 1] 0 False)) 1)) 1 =
     [(2, \<lparr>softBodyBodyUniqueId = 0, nodeIndex = 1, bodyUniqueId = 1, linkIndex = - 1\<rparr>)] \<and>
   body_color (snd (release_anchor (snd (attach_anchor sim0 1 [0, 1] 0 False)) 1)) 1
     = Some ANCHOR_RGBA_INACTIVE"
  unfolding attach_example
  by (simp add: anchor_constraints_def release_anchor_def removeConstraint_def
      changeVisualShape_def body_color_def sim0_def)

text \<open>
  Claim C7 says that \<open>release_anchor\<close> does not destroy the marker body: after release the
  body still exists, merely unbound and recoloured. The body does survive, unchanged but
  for its colour, in every state (\<open>release_anchor_keeps_bodies\<close>). It is not left unbound:
  by the defect of claim C6 the constraints that \<open>attach_anchor\<close> created are not removed.
  In the state \<open>sim0\<close>, attaching anchor 1 to the vertices 0 and 1 with recolouring and then
  releasing it leaves the marker in place, back in the inactive colour, and still bound to
  vertex 1 by constraint 2.
\<close>

theorem release_anchor_marker_still_bound:
  "body_color (snd (attach_anchor sim0 1 [0, 1] 0 True)) 1 = Some ANCHOR_RGBA_ACTIVE \<and>
   bodies (snd (release_anchor (snd (attach_anchor sim0 1 [0, 1] 0 True)) 1)) 1
     = Some (marker\<lparr>rgbaColor := ANCHOR_RGBA_INACTIVE\<rparr>) \<and>
   anchor_constraints (snd (release_anchor (snd (attach_anchor sim0 1 [0, 1] 0 True)) 1)) 1
     = [(2, \<lparr>softBodyBodyUniqueId = 0, nodeIndex = 1, bodyUniqueId = 1, linkIndex = - 1\<rparr>)]"
  unfolding attach_example_recolor
  by (simp add: anchor_constraints_def release_anchor_def removeConstraint_def
      changeVisualShape_def body_color_def sim0_def)

text \<open>
  Claim C8: \<open>attach_anchor\<close> creates one soft-body anchor constraint per vertex index of the
  selection, in order, each linking that vertex of the deformable to the base (link -1) of
  the anchor marker; the marker is recoloured to the active colour when \<open>change_color\<close> holds
  and keeps its colour otherwise; for an empty selection no constraint is created.
\<close>

theorem attach_anchor_binds:
  "constraints (snd (attach_anchor s a [] d cc)) = constraints s \<and>
   (bodies s a = Some b \<and> meshes s d = Some m \<and> (\<forall>v \<in> set vs. v < length m) \<longrightarrow>
      (\<exists>s'. attach_anchor s a vs d cc = (Inr (), s') \<and>
         constraints s' = constraints s @
           zip [nextConstraintId s ..< nextConstraintId s + length vs]
               (map (\<lambda>v. \<lparr>softBodyBodyUniqueId = d, nodeIndex = v, bodyUniqueId = a,
                            linkIndex = - 1\<rparr>) vs) \<and>
         bodies s' = (if cc then (bodies s)(a \<mapsto> b\<lparr>rgbaColor := ANCHOR_RGBA_ACTIVE\<rparr>)
                      else bodies s)))"
proof (intro conjI impI)
  show "constraints (snd (attach_anchor s a [] d cc)) = constraints s"
    by (simp add: attach_anchor_def changeVisualShape_def split: option.splits)
next
  assume h: "bodies s a = Some b \<and> meshes s d = Some m \<and> (\<forall>v \<in> set vs. v < length m)"
  let ?s1 = "if cc then s\<lparr>bodies := (bodies s)(a \<mapsto> b\<lparr>rgbaColor := ANCHOR_RGBA_ACTIVE\<rparr>)\<rparr> else s"
  have run: "attach_anchor s a vs d cc = attach_vertices ?s1 a vs d"
    using h by (simp add: attach_anchor_def changeVisualShape_def)
  have "bodies ?s1 a \<noteq> None" "meshes ?s1 d = Some m" "\<forall>v \<in> set vs. v < length m"
    using h by simp_all
  from attach_vertices_ok [OF this] obtain s' where
    "attach_vertices ?s1 a vs d = (Inr (), s')"
    "constraints s' = constraints ?s1 @
       zip [nextConstraintId ?s1 ..< nextConstraintId ?s1 + length vs]
           (map (\<lambda>v. \<lparr>softBodyBodyUniqueId = d, nodeIndex = v, bodyUniqueId = a,
                        linkIndex = - 1\<rparr>) vs)"
    "bodies s' = bodies ?s1"
    by blast
  then show "\<exists>s'. attach_anchor s a vs d cc = (Inr (), s') \<and>
         constraints s' = constraints s @
           zip [nextConstraintId s ..< nextConstraintId s + length vs]
               (map (\<lambda>v. \<lparr>softBodyBodyUniqueId = d, nodeIndex = v, bodyUniqueId = a,
                            linkIndex = - 1\<rparr>) vs) \<and>
         bodies s' = (if cc then (bodies s)(a \<mapsto> b\<lparr>rgbaColor := ANCHOR_RGBA_ACTIVE\<rparr>)
                      else bodies s)"
    unfolding run by (cases cc) auto
qed

theorem attach_anchor_binds_witness:
  "bodies sim0 1 = Some marker \<and> meshes sim0 0 = Some [(0, 0, 0), (1, 0, 0)] \<and>
   (\<exists>s'. attach_anchor sim0 1 [0, 1] 0 True = (Inr (), s') \<and>
      constraints s' =
        [(1, \<lparr>softBodyBodyUniqueId = 0, nodeIndex = 0, bodyUniqueId = 1, linkIndex = - 1\<rparr>),
         (2, \<lparr>softBodyBodyUniqueId = 0, nodeIndex = 1, bodyUniqueId = 1, linkIndex = - 1\<rparr>)] \<and>
      bodies s' 1 = Some (marker\<lparr>rgbaColor := ANCHOR_RGBA_ACTIVE\<rparr>))"
proof -
  have h: "bodies sim0 1 = Some marker \<and> meshes sim0 0 = Some [(0, 0, 0), (1, 0, 0)] \<and>
      (\<forall>v \<in> set [0, 1 :: nat]. v < length [(0, 0, 0), (1, 0, 0) :: vec3])"
    using sim0_fields by simp
  have u: "[1 ..< 1 + length [0, 1 :: nat]] = [1, 2]"
    by (simp add: upt_conv_Cons)
  from attach_anchor_binds [of sim0 1 0 True marker "[(0, 0, 0), (1, 0, 0)]" "[0, 1]"] h
  obtain s' where "attach_anchor sim0 1 [0, 1] 0 True = (Inr (), s')"
    "constraints s' = constraints sim0 @ zip [nextConstraintId sim0 ..< nextConstraintId sim0 + length [0, 1 :: nat]]
               (map (\<lambda>v. \<lparr>softBodyBodyUniqueId = 0, nodeIndex = v, bodyUniqueId = 1,
                            linkIndex = - 1\<rparr>) [0, 1])"
    "bodies s' = (bodies sim0)(1 \<mapsto> marker\<lparr>rgbaColor := ANCHOR_RGBA_ACTIVE\<rparr>)"
    by auto
  then have "attach_anchor sim0 1 [0, 1] 0 True = (Inr (), s') \<and>
      constraints s' =
        [(1, \<lparr>softBodyBodyUniqueId = 0, nodeIndex = 0, bodyUniqueId = 1, linkIndex = - 1\<rparr>),
         (2, \<lparr>softBodyBodyUniqueId = 0, nodeIndex = 1, bodyUniqueId = 1, linkIndex = - 1\<rparr>)] \<and>
      bodies s' 1 = Some (marker\<lparr>rgbaColor := ANCHOR_RGBA_ACTIVE\<rparr>)"
    using sim0_fields u by simp
  with h show ?thesis by blast
qed

end
